theory Spec2Isabelle
  imports Complex_Main "HOL-Library.Log_Nat"
begin

section \<open>JavaScript primitives used by the key generation page\<close>

text \<open>
  The page \<^verbatim>\<open>client/src/pages/reseller/generate.tsx\<close> reads its select fields as strings
  and turns them into numbers with \<^verbatim>\<open>parseInt\<close> (one argument, so the radix is chosen
  from the string). The result is a number or \<^verbatim>\<open>NaN\<close>: here \<open>Some n\<close> or \<open>None\<close>.
  The steps are those of the language standard: skip leading white space, read an
  optional sign, read an optional \<^verbatim>\<open>0x\<close>/\<^verbatim>\<open>0X\<close> prefix (radix 16, else radix 10), take
  the longest prefix of digits of that radix; no digit gives \<^verbatim>\<open>NaN\<close>. The result
  here is the integer the digits denote; the number the page holds is the double nearest
  to it (\<open>to_double\<close> below), which is the same integer up to \<open>2 ^ 53\<close>. The sign of zero
  is not represented. Characters are bytes, and white space is the ASCII white space.
\<close>

definition is_white :: "char \<Rightarrow> bool" where
  "is_white c = (c \<in> set [CHR 0x09, CHR 0x0A, CHR 0x0B, CHR 0x0C, CHR 0x0D, CHR 0x20])"

definition digit_val :: "char \<Rightarrow> nat option" where
  "digit_val = map_of
     [(CHR ''0'', 0), (CHR ''1'', 1), (CHR ''2'', 2), (CHR ''3'', 3), (CHR ''4'', 4),
      (CHR ''5'', 5), (CHR ''6'', 6), (CHR ''7'', 7), (CHR ''8'', 8), (CHR ''9'', 9),
      (CHR ''a'', 10), (CHR ''b'', 11), (CHR ''c'', 12), (CHR ''d'', 13), (CHR ''e'', 14),
      (CHR ''f'', 15), (CHR ''A'', 10), (CHR ''B'', 11), (CHR ''C'', 12), (CHR ''D'', 13),
      (CHR ''E'', 14), (CHR ''F'', 15)]"

definition is_digit :: "nat \<Rightarrow> char \<Rightarrow> bool" where
  "is_digit r c = (case digit_val c of None \<Rightarrow> False | Some v \<Rightarrow> v < r)"

definition add_digit :: "nat \<Rightarrow> nat \<Rightarrow> char \<Rightarrow> nat" where
  "add_digit r acc c = (case digit_val c of None \<Rightarrow> acc | Some v \<Rightarrow> acc * r + v)"

definition parse_digits :: "nat \<Rightarrow> string \<Rightarrow> nat option" where
  "parse_digits r s =
     (let z = takeWhile (is_digit r) s
      in if z = [] then None else Some (foldl (add_digit r) 0 z))"

fun parse_unsigned :: "string \<Rightarrow> nat option" where
  "parse_unsigned (a # b # s) =
     (if a = CHR ''0'' \<and> (b = CHR ''x'' \<or> b = CHR ''X'')
      then parse_digits 16 s else parse_digits 10 (a # b # s))"
| "parse_unsigned s = parse_digits 10 s"

fun parse_signed :: "string \<Rightarrow> int option" where
  "parse_signed [] = None"
| "parse_signed (c # s) =
     (if c = CHR ''-'' then map_option (\<lambda>n. - int n) (parse_unsigned s)
      else if c = CHR ''+'' then map_option int (parse_unsigned s)
      else map_option int (parse_unsigned (c # s)))"

definition parseInt :: "string \<Rightarrow> int option" where
  "parseInt s = parse_signed (dropWhile is_white s)"

text \<open>
  \<^verbatim>\<open>Number.prototype.toString\<close> on the integers the page prints (the tiers' days as
  the values of the select items, the number of keys in the success message).
\<close>

definition digit_char :: "nat \<Rightarrow> char" where
  "digit_char d = char_of (48 + d)"

function nat_toString :: "nat \<Rightarrow> string" where
  "nat_toString n =
     (if n < 10 then [digit_char n] else nat_toString (n div 10) @ [digit_char (n mod 10)])"
  by pat_completeness auto
termination
  by (relation "measure id") auto

declare nat_toString.simps [simp del]

definition toString :: "int \<Rightarrow> string" where
  "toString i = (if i < 0 then CHR ''-'' # nat_toString (nat (- i)) else nat_toString (nat i))"

text \<open>
  \<^verbatim>\<open>x || 0\<close> on a number that may be \<^verbatim>\<open>undefined\<close>: a missing or zero operand gives 0.
\<close>

definition or0 :: "rat option \<Rightarrow> rat" where
  "or0 x = (case x of None \<Rightarrow> 0 | Some c \<Rightarrow> if c = 0 then 0 else c)"

section \<open>JavaScript numbers\<close>

text \<open>
  A number of the page is an IEEE 754 double: a finite value (a rational here), an
  infinity or \<^verbatim>\<open>NaN\<close>. \<open>to_double\<close> rounds a rational to the nearest double, ties to
  the even significand: the doubles around a magnitude \<open>a\<close> with
  \<open>2 ^ e \<le> a < 2 ^ (e + 1)\<close> are the multiples of \<open>2 ^ (e - 52)\<close>, and of
  \<open>2 ^ (- 1074)\<close> below the normal range; a magnitude that rounds to \<open>2 ^ 1024\<close> or
  more is an infinity.
\<close>

datatype jsnum = Fin rat | PInf | NInf | NaN

definition floor_log2 :: "rat \<Rightarrow> int" where
  "floor_log2 x =
     (let (p, q) = quotient_of x; e0 = bitlen p - bitlen q
      in if 2 powi e0 \<le> x then e0 else e0 - 1)"

definition round_half_even :: "rat \<Rightarrow> int" where
  "round_half_even m =
     (let f = \<lfloor>m\<rfloor>; d = m - of_int f
      in if d < 1 / 2 then f else if 1 / 2 < d then f + 1 else if even f then f else f + 1)"

definition round_magnitude :: "rat \<Rightarrow> rat" where
  "round_magnitude a =
     (let k = max (floor_log2 a - 52) (- 1074)
      in of_int (round_half_even (a / 2 powi k)) * 2 powi k)"

definition to_double :: "rat \<Rightarrow> jsnum" where
  "to_double x =
     (if x = 0 then Fin 0
      else let r = round_magnitude \<bar>x\<bar>
           in if 2 powi 1024 \<le> r then (if x < 0 then NInf else PInf)
              else Fin (if x < 0 then - r else r))"

text \<open>
  \<^verbatim>\<open>c * k\<close> for a finite \<open>c\<close> (the product is rounded; 0 times an infinity is
  \<^verbatim>\<open>NaN\<close>), \<^verbatim>\<open>a < t\<close> for a finite \<open>a\<close> (false at \<^verbatim>\<open>NaN\<close>), and \<^verbatim>\<open>t - a\<close>.
\<close>

fun js_times :: "rat \<Rightarrow> jsnum \<Rightarrow> jsnum" where
  "js_times c (Fin y) = to_double (c * y)"
| "js_times c PInf = (if c = 0 then NaN else if 0 < c then PInf else NInf)"
| "js_times c NInf = (if c = 0 then NaN else if 0 < c then NInf else PInf)"
| "js_times c NaN = NaN"

fun js_less :: "rat \<Rightarrow> jsnum \<Rightarrow> bool" where
  "js_less a (Fin y) = (a < y)"
| "js_less a PInf = True"
| "js_less a NInf = False"
| "js_less a NaN = False"

fun js_minus :: "jsnum \<Rightarrow> rat \<Rightarrow> jsnum" where
  "js_minus (Fin y) a = to_double (y - a)"
| "js_minus PInf a = PInf"
| "js_minus NInf a = NInf"
| "js_minus NaN a = NaN"

section \<open>The tier table and the form\<close>

record tier =
  days :: int
  credits :: rat
  label :: string

definition DAY_CREDIT_TIERS :: "tier list" where
  "DAY_CREDIT_TIERS =
     [\<lparr>days = 5, credits = 1 / 2, label = ''5 Days / 0.5 Credit''\<rparr>,
      \<lparr>days = 10, credits = 1, label = ''10 Days / 1 Credit''\<rparr>,
      \<lparr>days = 20, credits = 2, label = ''20 Days / 2 Credits''\<rparr>,
      \<lparr>days = 30, credits = 3, label = ''30 Days / 3 Credits''\<rparr>,
      \<lparr>days = 60, credits = 6, label = ''60 Days / 6 Credits''\<rparr>]"

text \<open>
  \<^verbatim>\<open>DAY_CREDIT_TIERS.find(t => t.days === selectedDays)\<close>: the first tier whose days are
  the selected number; \<^verbatim>\<open>NaN\<close> is equal to no number. (The double nearest to an integer
  is one of the table's days only if the integer is: rounding is monotone and leaves
  the integers up to \<open>2 ^ 53\<close> as they are.)
\<close>

definition find_tier :: "int option \<Rightarrow> tier option" where
  "find_tier selectedDays = List.find (\<lambda>t. Some (days t) = selectedDays) DAY_CREDIT_TIERS"

text \<open>The spec's \<open>tierCost\<close>: the credits of the tier found for a number of days.\<close>

definition tierCost :: "int \<Rightarrow> rat option" where
  "tierCost d = map_option credits (find_tier (Some d))"

text \<open>
  The form's values. \<open>keyCount\<close> is a number in the schema, but the input's handler
  stores the empty string when the field is emptied (\<^verbatim>\<open>field.onChange('' as any)\<close>), so
  both are values of the field. \<open>Count n\<close> is the number \<^verbatim>\<open>parseInt\<close> gives for digits
  that denote \<open>n\<close>, that is the double nearest to \<open>n\<close> (\<open>count_number\<close> below).
  \<open>customKey\<close> is optional in the schema.
\<close>

datatype key_count = Count int | Blank

record GenerateKeyValues =
  game :: string
  deviceLimit :: string
  dayTier :: string
  keyCount :: key_count
  customKey :: "string option"

definition defaultValues :: GenerateKeyValues where
  "defaultValues =
     \<lparr>game = '''', deviceLimit = ''1'', dayTier = ''30'', keyCount = Count 1,
      customKey = Some ''''\<rparr>"

text \<open>The values of the \<^verbatim>\<open>SelectItem\<close>s of the three selects.\<close>

definition GAME_OPTIONS :: "string list" where
  "GAME_OPTIONS = [''PUBG MOBILE'', ''LAST ISLAND OF SURVIVAL'', ''FREE FIRE'']"

definition DEVICE_LIMIT_OPTIONS :: "string list" where
  "DEVICE_LIMIT_OPTIONS = [''1'', ''2'', ''100'']"

definition DAY_TIER_OPTIONS :: "string list" where
  "DAY_TIER_OPTIONS = map (\<lambda>t. toString (days t)) DAY_CREDIT_TIERS"

text \<open>
  \<open>generateKeySchema\<close>, as the resolver applies it: the issues in the order of the
  schema's fields, each with the field it is about. A string passes \<^verbatim>\<open>min(1)\<close> when it
  has a character; \<open>keyCount\<close> passes when it is a number that is at least 1 (its
  default applies to an undefined value only, which no handler of the page stores). The
  double nearest to an integer is at least 1 exactly when the integer is.
\<close>

datatype field = Game | DeviceLimit | DayTier | KeyCount

definition generateKeySchema :: "GenerateKeyValues \<Rightarrow> (field \<times> string) list" where
  "generateKeySchema v =
     (if length (game v) < 1 then [(Game, ''Game selection is required'')] else []) @
     (if length (deviceLimit v) < 1 then [(DeviceLimit, ''Device limit is required'')] else []) @
     (if length (dayTier v) < 1 then [(DayTier, ''Day selection is required'')] else []) @
     (case keyCount v of
        Blank \<Rightarrow> [(KeyCount, ''Expected number, received string'')]
      | Count n \<Rightarrow> if n < 1 then [(KeyCount, ''Must generate at least 1 key'')] else [])"

section \<open>The cost panel and the submit button\<close>

text \<open>
  Every part of the alert and the button recomputes the same three lines:
  \<^verbatim>\<open>selectedDays = parseInt(form.watch("dayTier") || "30")\<close>,
  \<^verbatim>\<open>tier = DAY_CREDIT_TIERS.find(...)\<close>,
  \<^verbatim>\<open>totalCredits = (tier?.credits || 0) * form.watch("keyCount")\<close>.
  The product is a product of doubles; the empty string multiplies as 0.
\<close>

definition watched_days :: "GenerateKeyValues \<Rightarrow> int option" where
  "watched_days v = parseInt (if dayTier v = [] then ''30'' else dayTier v)"

definition watched_tier :: "GenerateKeyValues \<Rightarrow> tier option" where
  "watched_tier v = find_tier (watched_days v)"

definition count_number :: "key_count \<Rightarrow> jsnum" where
  "count_number k = (case k of Count n \<Rightarrow> to_double (of_int n) | Blank \<Rightarrow> Fin 0)"

definition totalCredits :: "GenerateKeyValues \<Rightarrow> jsnum" where
  "totalCredits v =
     js_times (or0 (map_option credits (watched_tier v))) (count_number (keyCount v))"

record profile =
  profile_credits :: rat

text \<open>\<^verbatim>\<open>profile?.credits || 0\<close>: the profile is \<open>None\<close> until the query has loaded it.\<close>

definition available :: "profile option \<Rightarrow> rat" where
  "available p = or0 (map_option profile_credits p)"

definition insufficient :: "profile option \<Rightarrow> GenerateKeyValues \<Rightarrow> bool" where
  "insufficient p v = js_less (available p) (totalCredits v)"


text \<open>
  The numbers of the alert's description, before they are printed: the cost per key, the
  number of keys, the total, the credits available and, when they do not suffice, how
  many are missing (printed with one decimal).
\<close>

record cost_info =
  costPerKey :: rat
  key_number :: key_count
  total :: jsnum
  have_credits :: rat
  need_more :: "jsnum option"

definition alertDescription :: "profile option \<Rightarrow> GenerateKeyValues \<Rightarrow> cost_info" where
  "alertDescription p v =
     \<lparr>costPerKey = or0 (map_option credits (watched_tier v)),
      key_number = keyCount v,
      total = totalCredits v,
      have_credits = available p,
      need_more =
        (if insufficient p v then Some (js_minus (totalCredits v) (available p)) else None)\<rparr>"

definition submit_disabled :: "bool \<Rightarrow> profile option \<Rightarrow> GenerateKeyValues \<Rightarrow> bool" where
  "submit_disabled isPending p v = (isPending \<or> insufficient p v)"

text \<open>
  The number input has \<^verbatim>\<open>min="1"\<close> and \<^verbatim>\<open>max="100"\<close>, and the form does not switch the
  browser's validation off: while the input shows a number below 1 or above 100 the
  browser submits nothing. The input is not required, so an empty input passes. Two
  cases are left unchecked here, so that the page modelled submits where the browser
  may not: an infinity, which is no number a number input shows, and an empty value
  that stands for text the browser cannot read as a number (the input's text is not
  part of the state).
\<close>

definition number_input_valid :: "key_count \<Rightarrow> bool" where
  "number_input_valid k =
     (case k of
        Blank \<Rightarrow> True
      | Count n \<Rightarrow> (case to_double (of_int n) of Fin y \<Rightarrow> 1 \<le> y \<and> y \<le> 100 | _ \<Rightarrow> True))"




section \<open>The mutation\<close>

text \<open>
  The two requests the mutation makes through \<^verbatim>\<open>apiRequest\<close>, and the payload of the
  second. \<open>p_deviceLimit\<close> is the result of \<^verbatim>\<open>parseInt\<close>, so it may be \<^verbatim>\<open>NaN\<close>
  (and, as there, it is the integer parsed that is recorded, for the double nearest to
  it); \<open>p_keyString\<close> is \<open>None\<close> when the field is \<^verbatim>\<open>undefined\<close>.
\<close>

record payload =
  p_game :: string
  p_deviceLimit :: "int option"
  p_days :: int
  p_keyString :: "string option"
  p_count :: key_count
  p_resellerId :: int

datatype request = GetSession | PostGenerate payload

text \<open>
  What the server answers. \<^verbatim>\<open>apiRequest\<close> and \<^verbatim>\<open>json()\<close> may throw (\<open>Thrown\<close> with the
  error's message). A session names its user when it has one; a response to the
  generation request is not ok, with the message of its body when it has one, or ok
  with its data, whose \<open>keys\<close> may be missing.
\<close>

datatype 'a reply = Thrown string | Response 'a

record sessionData =
  isAuthenticated :: bool
  user_id :: "int option"

record key_record =
  keyString :: string
  expiryAt :: int

record generate_data =
  keys :: "key_record list option"

datatype generate_response = NotOk "string option" | Ok generate_data

record server_env =
  session_reply :: "sessionData reply"
  generate_reply :: "payload \<Rightarrow> generate_response reply"

text \<open>\<^verbatim>\<open>message || fallback\<close> on a string that may be missing or empty.\<close>

definition or_message :: "string option \<Rightarrow> string \<Rightarrow> string" where
  "or_message m fallback = (case m of None \<Rightarrow> fallback | Some s \<Rightarrow> if s = [] then fallback else s)"

text \<open>
  \<^verbatim>\<open>!sessionData.isAuthenticated || !sessionData.user || !sessionData.user.id\<close>: the id
  of the session's user, when the session is authenticated, has a user, and the id is
  not 0.
\<close>

definition session_user :: "sessionData \<Rightarrow> int option" where
  "session_user sd =
     (if \<not> isAuthenticated sd then None
      else case user_id sd of None \<Rightarrow> None | Some i \<Rightarrow> if i = 0 then None else Some i)"

definition make_payload :: "GenerateKeyValues \<Rightarrow> tier \<Rightarrow> int \<Rightarrow> payload" where
  "make_payload v t uid =
     \<lparr>p_game = game v,
      p_deviceLimit = parseInt (deviceLimit v),
      p_days = days t,
      p_keyString = (case customKey v of None \<Rightarrow> None | Some s \<Rightarrow> if s = [] then None else Some s),
      p_count = keyCount v,
      p_resellerId = uid\<rparr>"

text \<open>
  The body of the \<^verbatim>\<open>try\<close>: the requests made, in order, and the error thrown
  (its message) or the data returned.
\<close>

definition mutation_try :: "server_env \<Rightarrow> GenerateKeyValues \<Rightarrow> request list \<times> (string + generate_data)" where
  "mutation_try env v =
     (case find_tier (parseInt (dayTier v)) of
        None \<Rightarrow> ([], Inl ''Invalid day tier selected'')
      | Some t \<Rightarrow>
          (case session_reply env of
             Thrown m \<Rightarrow> ([GetSession], Inl m)
           | Response sd \<Rightarrow>
               (case session_user sd of
                  None \<Rightarrow> ([GetSession], Inl ''User session not found. Please log in again.'')
                | Some uid \<Rightarrow>
                    (let pl = make_payload v t uid
                     in case generate_reply env pl of
                          Thrown m \<Rightarrow> ([GetSession, PostGenerate pl], Inl m)
                        | Response (NotOk m) \<Rightarrow>
                            ([GetSession, PostGenerate pl],
                             Inl (or_message m ''Failed to generate key''))
                        | Response (Ok d) \<Rightarrow> ([GetSession, PostGenerate pl], Inr d)))))"

text \<open>The \<^verbatim>\<open>catch\<close> throws the error again, with a message when it had none.\<close>

definition mutationFn :: "server_env \<Rightarrow> GenerateKeyValues \<Rightarrow> request list \<times> (string + generate_data)" where
  "mutationFn env v =
     (case mutation_try env v of
        (tr, Inl m) \<Rightarrow> (tr, Inl (or_message (Some m) ''Failed to generate key''))
      | (tr, Inr d) \<Rightarrow> (tr, Inr d))"

section \<open>The page\<close>

record toast_msg =
  title :: string
  description :: string
  destructive :: bool

record page =
  form :: GenerateKeyValues
  formErrors :: "(field \<times> string) list"
  the_profile :: "profile option"
  generatedKeys :: "string list"
  toasts :: "toast_msg list"
  invalidated :: "string list"
  sent :: "request list"

definition initial_page :: page where
  "initial_page =
     \<lparr>form = defaultValues, formErrors = [], the_profile = None, generatedKeys = [],
      toasts = [], invalidated = [], sent = []\<rparr>"

definition onSuccess :: "generate_data \<Rightarrow> page \<Rightarrow> page" where
  "onSuccess d p =
     (let p1 = p\<lparr>invalidated := invalidated p @ [''/api/reseller/profile'', ''/api/reseller/keys'']\<rparr>
      in case keys d of
           None \<Rightarrow> p1
         | Some ks \<Rightarrow>
             if length ks > 0
             then p1\<lparr>generatedKeys := map keyString ks,
                     toasts := toasts p1 @
                       [\<lparr>title = ''Success'',
                         description = ''Generated '' @ nat_toString (length ks) @ '' key(s) successfully'',
                         destructive = False\<rparr>]\<rparr>
             else p1)"

definition onError :: "string \<Rightarrow> page \<Rightarrow> page" where
  "onError m p =
     p\<lparr>toasts := toasts p @
        [\<lparr>title = ''Error'', description = or_message (Some m) ''Failed to generate keys'',
          destructive = True\<rparr>]\<rparr>"

definition mutate :: "server_env \<Rightarrow> GenerateKeyValues \<Rightarrow> page \<Rightarrow> page" where
  "mutate env v p =
     (case mutationFn env v of
        (tr, Inl m) \<Rightarrow> onError m (p\<lparr>sent := sent p @ tr\<rparr>)
      | (tr, Inr d) \<Rightarrow> onSuccess d (p\<lparr>sent := sent p @ tr\<rparr>))"

text \<open>
  \<^verbatim>\<open>form.handleSubmit(onSubmit)\<close>: the resolver's issues stop the submission; without
  any, \<open>onSubmit\<close> runs the mutation on the values.
\<close>

definition handleSubmit :: "server_env \<Rightarrow> page \<Rightarrow> page" where
  "handleSubmit env p =
     (let errs = generateKeySchema (form p)
      in if errs \<noteq> [] then p\<lparr>formErrors := errs\<rparr>
         else mutate env (form p) (p\<lparr>formErrors := []\<rparr>))"

text \<open>
  The submit button: a disabled button submits nothing, and neither does the browser
  while the number input is out of its range.
\<close>

definition press_submit :: "server_env \<Rightarrow> bool \<Rightarrow> page \<Rightarrow> page" where
  "press_submit env isPending p =
     (if submit_disabled isPending (the_profile p) (form p) then p
      else if \<not> number_input_valid (keyCount (form p)) then p
      else handleSubmit env p)"

text \<open>The list of keys under the form: \<^verbatim>\<open>generatedKeys.length > 0 && ...\<close>.\<close>

definition shown_keys :: "page \<Rightarrow> string list option" where
  "shown_keys p = (if length (generatedKeys p) > 0 then Some (generatedKeys p) else None)"

text \<open>
  The handlers of the fields. A select's \<^verbatim>\<open>onValueChange\<close> is \<^verbatim>\<open>field.onChange\<close>, which
  stores the string it is given (the select component calls it with the value of the
  item chosen). The number input stores the empty string, or the integer parsed from its
  text when there is one. The Random button stores the string \<open>r\<close> that
  \<^verbatim>\<open>generateRandomKey(game)\<close> returned (a function of \<^verbatim>\<open>lib/utils\<close>), unless no game is
  selected.
\<close>

datatype event =
    SelectGame string
  | SelectDeviceLimit string
  | SelectDayTier string
  | InputKeyCount string
  | InputCustomKey string
  | ClickRandom string
  | ProfileLoaded "profile option"
  | PressSubmit server_env bool

definition set_form :: "(GenerateKeyValues \<Rightarrow> GenerateKeyValues) \<Rightarrow> page \<Rightarrow> page" where
  "set_form f p = p\<lparr>form := f (form p)\<rparr>"

definition keyCount_onChange :: "string \<Rightarrow> GenerateKeyValues \<Rightarrow> GenerateKeyValues" where
  "keyCount_onChange s v =
     (if s = [] then v\<lparr>keyCount := Blank\<rparr>
      else case parseInt s of None \<Rightarrow> v | Some n \<Rightarrow> v\<lparr>keyCount := Count n\<rparr>)"

definition handleGenerateRandomKey :: "string \<Rightarrow> page \<Rightarrow> page" where
  "handleGenerateRandomKey r p =
     (if game (form p) = []
      then p\<lparr>toasts := toasts p @
             [\<lparr>title = ''Error'', description = ''Please select a game first'',
               destructive = True\<rparr>]\<rparr>
      else set_form (\<lambda>v. v\<lparr>customKey := Some r\<rparr>) p)"

fun on_event :: "event \<Rightarrow> page \<Rightarrow> page" where
  "on_event (SelectGame g) p = set_form (\<lambda>v. v\<lparr>game := g\<rparr>) p"
| "on_event (SelectDeviceLimit d) p = set_form (\<lambda>v. v\<lparr>deviceLimit := d\<rparr>) p"
| "on_event (SelectDayTier d) p = set_form (\<lambda>v. v\<lparr>dayTier := d\<rparr>) p"
| "on_event (InputKeyCount s) p = set_form (keyCount_onChange s) p"
| "on_event (InputCustomKey s) p = set_form (\<lambda>v. v\<lparr>customKey := Some s\<rparr>) p"
| "on_event (ClickRandom r) p = handleGenerateRandomKey r p"
| "on_event (ProfileLoaded pr) p = p\<lparr>the_profile := pr\<rparr>"
| "on_event (PressSubmit env isPending) p = press_submit env isPending p"

definition run :: "event list \<Rightarrow> page" where
  "run es = foldl (\<lambda>p e. on_event e p) initial_page es"

definition generate_payloads :: "page \<Rightarrow> payload list" where
  "generate_payloads p = concat (map (\<lambda>r. case r of GetSession \<Rightarrow> [] | PostGenerate pl \<Rightarrow> [pl]) (sent p))"

section \<open>The key generator behind the generation request\<close>

text \<open>
  The page's labels of the three games of the data model
  (\<^verbatim>\<open>PUBG_MOBILE\<close>, \<^verbatim>\<open>LIOS\<close>, \<^verbatim>\<open>FREE_FIRE\<close>).
\<close>

datatype game_enum = PUBG_MOBILE | LIOS | FREE_FIRE

fun game_name :: "game_enum \<Rightarrow> string" where
  "game_name PUBG_MOBILE = ''PUBG MOBILE''"
| "game_name LIOS = ''LAST ISLAND OF SURVIVAL''"
| "game_name FREE_FIRE = ''FREE FIRE''"

text \<open>
  Modelled from the spec: the Key entity, the request and the errors of the KeyGenerator
  (sections 3, 4.3, 6 and 7). The server that answers
  \<^verbatim>\<open>POST /api/reseller/keys/generate\<close> is not among the sources.
\<close>

record key =
  k_keyString :: string
  k_game :: string
  k_deviceLimit :: int
  k_expiryAt :: int
  k_creditCost :: rat
  k_revoked :: bool
  k_resellerId :: int
  k_createdAt :: int

record gen_request =
  r_resellerId :: int
  r_game :: string
  r_deviceLimit :: int
  r_days :: int
  r_count :: int
  r_customKey :: "string option"

datatype gen_error =
  InvalidTier | InvalidCount | InvalidDeviceLimit | InsufficientCredit | DuplicateKey | Retryable

text \<open>
  Modelled from the spec: the store of the absent server, that is each reseller's credit
  balance (section 4.1) and the keys created so far.
\<close>

record store =
  ledger :: "int \<Rightarrow> rat"
  store_keys :: "key list"

text \<open>
  Modelled from the spec: what section 4.3 leaves to the absent server, namely the
  game-specific prefix, how often a colliding string is generated again, and the clock.
\<close>

record gen_config =
  key_prefix :: "string \<Rightarrow> string"
  max_attempts :: nat
  now :: int

text \<open>
  Modelled from the spec: \<open>debit\<close> of the absent CreditLedger (section 4.1): the amount is
  positive, the debit succeeds only if the balance is at least the amount, and a failed
  debit leaves the balance unchanged.
\<close>

definition debit :: "int \<Rightarrow> rat \<Rightarrow> store \<Rightarrow> gen_error + store" where
  "debit rid amount st =
     (if 0 < amount \<and> amount \<le> ledger st rid
      then Inr (st\<lparr>ledger := (ledger st)(rid := ledger st rid - amount)\<rparr>)
      else Inl InsufficientCredit)"

text \<open>
  Modelled from the spec: one generated string of the absent KeyGenerator (section 4.3,
  step 4), the prefix followed by a pseudorandom suffix, rejected and generated again on
  a collision. The suffixes are the outputs of the pseudorandom source, in order; the
  result is the string and the outputs left, or \<open>None\<close> when the attempts are used up.
\<close>

fun fresh_key :: "string list \<Rightarrow> string \<Rightarrow> nat \<Rightarrow> string list \<Rightarrow> (string \<times> string list) option" where
  "fresh_key used pre 0 rs = None"
| "fresh_key used pre (Suc k) [] = None"
| "fresh_key used pre (Suc k) (r # rs) =
     (if pre @ r \<in> set used then fresh_key used pre k rs else Some (pre @ r, rs))"

text \<open>
  Modelled from the spec: \<open>n\<close> generated strings of the absent KeyGenerator, each unique
  among the strings in use and those generated before it.
\<close>

fun gen_keys :: "string list \<Rightarrow> string \<Rightarrow> nat \<Rightarrow> nat \<Rightarrow> string list \<Rightarrow> string list option" where
  "gen_keys used pre k 0 rs = Some []"
| "gen_keys used pre k (Suc n) rs =
     (case fresh_key used pre k rs of
        None \<Rightarrow> None
      | Some (s, rs') \<Rightarrow>
          (case gen_keys (s # used) pre k n rs' of
             None \<Rightarrow> None
           | Some ss \<Rightarrow> Some (s # ss)))"

text \<open>
  Modelled from the spec: the strings of a batch of the absent KeyGenerator (section 4.3,
  step 4): the first is the custom string if one is supplied and not in use (else
  \<open>DuplicateKey\<close>), the remaining ones are generated.
\<close>

definition key_strings :: "gen_config \<Rightarrow> string list \<Rightarrow> string list \<Rightarrow> gen_request \<Rightarrow> gen_error + string list" where
  "key_strings cfg rnd used rq =
     (case r_customKey rq of
        Some ck \<Rightarrow>
          if ck \<in> set used then Inl DuplicateKey
          else (case gen_keys (ck # used) (key_prefix cfg (r_game rq)) (max_attempts cfg)
                       (nat (r_count rq - 1)) rnd of
                  None \<Rightarrow> Inl Retryable
                | Some ss \<Rightarrow> Inr (ck # ss))
      | None \<Rightarrow>
          (case gen_keys used (key_prefix cfg (r_game rq)) (max_attempts cfg)
                  (nat (r_count rq)) rnd of
             None \<Rightarrow> Inl Retryable
           | Some ss \<Rightarrow> Inr ss))"

text \<open>
  Modelled from the spec: a Key record of the absent KeyGenerator, with
  \<open>expiryAt = now + days\<close>.
\<close>

definition make_key :: "gen_config \<Rightarrow> gen_request \<Rightarrow> rat \<Rightarrow> string \<Rightarrow> key" where
  "make_key cfg rq c s =
     \<lparr>k_keyString = s, k_game = r_game rq, k_deviceLimit = r_deviceLimit rq,
      k_expiryAt = now cfg + r_days rq, k_creditCost = c, k_revoked = False,
      k_resellerId = r_resellerId rq, k_createdAt = now cfg\<rparr>"

text \<open>
  Modelled from the spec: \<open>generate\<close> of the absent KeyGenerator (section 4.3, steps 1
  to 5). The result is the store afterwards and the error or the keys created; on every
  error the store is the one before the call (nothing is debited, no key persists).
\<close>

definition generate :: "gen_config \<Rightarrow> string list \<Rightarrow> store \<Rightarrow> gen_request \<Rightarrow> store \<times> (gen_error + key list)" where
  "generate cfg rnd st rq =
     (case tierCost (r_days rq) of
        None \<Rightarrow> (st, Inl InvalidTier)
      | Some c \<Rightarrow>
          if r_count rq < 1 then (st, Inl InvalidCount)
          else if r_deviceLimit rq < 1 then (st, Inl InvalidDeviceLimit)
          else (case debit (r_resellerId rq) (c * of_int (r_count rq)) st of
                  Inl e \<Rightarrow> (st, Inl e)
                | Inr st1 \<Rightarrow>
                    (case key_strings cfg rnd (map k_keyString (store_keys st)) rq of
                       Inl e \<Rightarrow> (st, Inl e)
                     | Inr ss \<Rightarrow>
                         (let ks = map (make_key cfg rq c) ss
                          in (st1\<lparr>store_keys := store_keys st1 @ ks\<rparr>, Inr ks)))))"

section \<open>Sessions in which the selects give their items\<close>

text \<open>
  The select component calls \<^verbatim>\<open>onValueChange\<close> with the value of one of its items; the
  handlers themselves store any string. The two conditions say of an event that it is
  such a call of the game select, and of the device limit select.
\<close>

fun game_from_select :: "event \<Rightarrow> bool" where
  "game_from_select (SelectGame g) = (g \<in> set GAME_OPTIONS)"
| "game_from_select e = True"

fun device_limit_from_select :: "event \<Rightarrow> bool" where
  "device_limit_from_select (SelectDeviceLimit d) = (d \<in> set DEVICE_LIMIT_OPTIONS)"
| "device_limit_from_select e = True"

section \<open>A server for the examples\<close>

text \<open>
  A server that knows the session's user and answers every generation request with two
  keys: whatever the examples below show the page refusing is refused by the page.
\<close>

definition example_env :: server_env where
  "example_env =
     \<lparr>session_reply = Response \<lparr>isAuthenticated = True, user_id = Some 7\<rparr>,
      generate_reply = (\<lambda>pl. Response (Ok \<lparr>keys = Some [\<lparr>keyString = ''FF-K1'', expiryAt = 30\<rparr>, \<lparr>keyString = ''FF-K2'', expiryAt = 30\<rparr>]\<rparr>))\<rparr>"

text \<open>
  A generator for the examples: the prefix is the first four letters of the game and a
  dash, three attempts per key, one key in the store whose string the first
  pseudorandom output collides with, and a reseller 7 with a balance \<open>b\<close>.
\<close>

definition example_cfg :: gen_config where
  "example_cfg = \<lparr>key_prefix = (\<lambda>g. take 4 g @ ''-''), max_attempts = 3, now = 100\<rparr>"

definition example_request :: gen_request where
  "example_request =
     \<lparr>r_resellerId = 7, r_game = ''FREE FIRE'', r_deviceLimit = 1, r_days = 30, r_count = 3,
      r_customKey = Some ''MYKEY''\<rparr>"

definition example_store :: "rat \<Rightarrow> store" where
  "example_store b =
     \<lparr>ledger = (\<lambda>r. if r = 7 then b else 0),
      store_keys =
        [\<lparr>k_keyString = ''FREE-AAAA'', k_game = ''FREE FIRE'', k_deviceLimit = 2,
          k_expiryAt = 60, k_creditCost = 1, k_revoked = False, k_resellerId = 7,
          k_createdAt = 50\<rparr>]\<rparr>"

definition example_rnd :: "string list" where
  "example_rnd = [''AAAA'', ''BBBB'', ''CCCC'', ''DDDD'']"

text \<open>
  A session of the page: a game and a device limit are chosen, the profile loads with 10
  credits, and submit is pressed.
\<close>

definition example_events :: "string \<Rightarrow> string \<Rightarrow> event list" where
  "example_events g d =
     [SelectGame g, SelectDeviceLimit d, ProfileLoaded (Some \<lparr>profile_credits = 10\<rparr>),
      PressSubmit example_env False]"

section \<open>Facts about the rounding to a double\<close>

lemma floor_log2_le:
  assumes "0 < x"
  shows "2 powi floor_log2 x \<le> x"
proof -
  obtain p q where pq: "quotient_of x = (p, q)" by (cases "quotient_of x")
  have q: "0 < q" using quotient_of_denom_pos [OF pq] .
  have x: "x = of_int p / of_int q" using quotient_of_div [OF pq] .
  have p: "0 < p" using assms q unfolding x by (simp add: zero_less_divide_iff)
  let ?e0 = "bitlen p - bitlen q"
  show ?thesis
  proof (cases "2 powi ?e0 \<le> x")
    case True
    then show ?thesis by (simp add: floor_log2_def pq)
  next
    case False
    then have fl: "floor_log2 x = ?e0 - 1" by (simp add: floor_log2_def pq)
    have bp: "1 \<le> bitlen p" using p bitlen_eq_zero_iff [of p] bitlen_nonneg [of p] by linarith
    have bq: "1 \<le> bitlen q" using q bitlen_eq_zero_iff [of q] bitlen_nonneg [of q] by linarith
    have lp: "(2::rat) powi (bitlen p - 1) \<le> of_int p"
    proof -
      have "(2::int) ^ nat (bitlen p - 1) \<le> p" using bitlen_bounds [OF p] by simp
      then have "of_int ((2::int) ^ nat (bitlen p - 1)) \<le> (of_int p :: rat)"
        by (rule of_int_le_iff [THEN iffD2])
      moreover have "(2::rat) powi (bitlen p - 1) = 2 ^ nat (bitlen p - 1)"
        using bp by (simp add: power_int_def)
      ultimately show ?thesis by simp
    qed
    have uq: "(of_int q :: rat) \<le> 2 powi bitlen q"
    proof -
      have "q \<le> (2::int) ^ nat (bitlen q)" using bitlen_bounds [OF q] by simp
      then have "(of_int q :: rat) \<le> of_int ((2::int) ^ nat (bitlen q))"
        by (rule of_int_le_iff [THEN iffD2])
      moreover have "(2::rat) powi (bitlen q) = 2 ^ nat (bitlen q)"
        using bq by (simp add: power_int_def)
      ultimately show ?thesis by simp
    qed
    have "(2::rat) powi (?e0 - 1) = 2 powi (bitlen p - 1) / 2 powi bitlen q"
      using power_int_diff [of "2::rat" "bitlen p - 1" "bitlen q"] by (simp add: algebra_simps)
    also have "\<dots> \<le> of_int p / 2 powi bitlen q"
      using lp by (simp add: divide_right_mono)
    also have "\<dots> \<le> of_int p / of_int q"
      using uq p q by (simp add: divide_left_mono)
    finally have "(2::rat) powi (?e0 - 1) \<le> of_int p / of_int q" .
    then show ?thesis unfolding fl by (simp add: x)
  qed
qed

lemma round_half_even_of_int: "round_half_even (of_int m) = m"
  by (simp add: round_half_even_def)

text \<open>
  Halves of integers up to \<open>2 ^ 52\<close>, and integers up to \<open>2 ^ 53\<close>, are doubles.
\<close>

lemma round_magnitude_exact:
  assumes "0 < a" and "a = of_int j / 2" and "a \<le> 2 ^ 52 \<or> (even j \<and> a \<le> 2 ^ 53)"
  shows "round_magnitude a = a"
proof -
  let ?e = "floor_log2 a"
  let ?k = "max (?e - 52) (- 1074)"
  have le: "2 powi ?e \<le> a" using floor_log2_le [OF assms(1)] .
  have a53: "a \<le> 2 powi 53" using assms(3) by auto
  have e53: "?e \<le> 53"
  proof (rule ccontr)
    assume "\<not> ?e \<le> 53"
    then have "54 \<le> ?e" by simp
    then have "(2::rat) powi 54 \<le> 2 powi ?e" by (intro power_int_increasing) simp_all
    with le a53 show False by simp
  qed
  have integral: "\<exists>m. a / 2 powi ?k = of_int m"
  proof -
    consider "?k \<le> - 1" | "?k = 0" | "?k = 1" using e53 by linarith
    then show ?thesis
    proof cases
      case 1
      define n where "n = nat (- 1 - ?k)"
      have n: "?k = - int (Suc n)" using 1 by (simp add: n_def)
      have "(2::rat) powi ?k = inverse (2 ^ Suc n)"
        by (simp only: n power_int_minus power_int_of_nat)
      then have "a / 2 powi ?k = of_int (j * 2 ^ n)"
        unfolding assms(2) by (simp add: field_simps)
      then show ?thesis ..
    next
      case 2
      then have e: "?e = 52" by linarith
      have "2 ^ 52 \<le> a" using le unfolding e by simp
      show ?thesis
      proof (cases "a \<le> 2 ^ 52")
        case True
        with \<open>2 ^ 52 \<le> a\<close> have "a = of_int (2 ^ 52)" by simp
        then show ?thesis unfolding 2 by (metis div_by_1 power_int_0_right)
      next
        case False
        with assms(3) have "even j" by simp
        then obtain i where "j = 2 * i" by (elim evenE)
        then have "a = of_int i" unfolding assms(2) by simp
        then show ?thesis unfolding 2 by (metis div_by_1 power_int_0_right)
      qed
    next
      case 3
      then have e: "?e = 53" by linarith
      have "2 ^ 53 \<le> a" using le unfolding e by simp
      with assms(3) have "a = 2 ^ 53" by auto
      then have "a / 2 powi 1 = of_int (2 ^ 52)" by simp
      then show ?thesis unfolding 3 ..
    qed
  qed
  then obtain m where m: "a / 2 powi ?k = of_int m" ..
  have pos: "(2::rat) powi ?k \<noteq> 0" by simp
  have "round_magnitude a = of_int m * 2 powi ?k"
    unfolding round_magnitude_def Let_def m round_half_even_of_int ..
  also have "\<dots> = a" using m pos by (simp add: field_simps)
  finally show ?thesis .
qed

lemma to_double_exact:
  assumes "x = of_int j / 2" and "\<bar>x\<bar> \<le> 2 ^ 52 \<or> (even j \<and> \<bar>x\<bar> \<le> 2 ^ 53)"
  shows "to_double x = Fin x"
proof (cases "x = 0")
  case True
  then show ?thesis by (simp add: to_double_def)
next
  case False
  then have pos: "0 < \<bar>x\<bar>" by simp
  have half: "\<bar>x\<bar> = of_int \<bar>j\<bar> / 2" unfolding assms(1) by simp
  have "\<bar>x\<bar> \<le> 2 ^ 52 \<or> (even \<bar>j\<bar> \<and> \<bar>x\<bar> \<le> 2 ^ 53)" using assms(2) by simp
  from round_magnitude_exact [OF pos half this] have r: "round_magnitude \<bar>x\<bar> = \<bar>x\<bar>" .
  have "\<bar>x\<bar> \<le> 2 ^ 53" using assms(2) by auto
  also have "\<dots> < (2::rat) powi 1024" by simp
  finally have small: "\<not> 2 powi 1024 \<le> \<bar>x\<bar>" by simp
  have unfolded: "to_double x =
      (if 2 powi 1024 \<le> \<bar>x\<bar> then (if x < 0 then NInf else PInf)
       else Fin (if x < 0 then - \<bar>x\<bar> else \<bar>x\<bar>))"
    unfolding to_double_def Let_def r using False by simp
  have sign: "(if x < 0 then - \<bar>x\<bar> else \<bar>x\<bar>) = x" by simp
  show ?thesis unfolding unfolded sign using small by simp
qed

lemma to_double_of_int:
  assumes "\<bar>n\<bar> \<le> 2 ^ 53"
  shows "to_double (of_int n) = Fin (of_int n)"
proof -
  have a: "(of_int n :: rat) = of_int (2 * n) / 2" by simp
  have "\<bar>of_int n :: rat\<bar> \<le> 2 ^ 53"
    using assms by (metis of_int_abs of_int_le_iff of_int_numeral of_int_power)
  then have b: "\<bar>of_int n :: rat\<bar> \<le> 2 ^ 52 \<or> (even (2 * n) \<and> \<bar>of_int n :: rat\<bar> \<le> 2 ^ 53)"
    by simp
  from to_double_exact [OF a b] show ?thesis .
qed

lemma to_double_0: "to_double 0 = Fin 0"
  by (simp add: to_double_def)

lemma to_double_small:
  "to_double 1 = Fin 1" "to_double 3 = Fin 3" "to_double 4 = Fin 4" "to_double 9 = Fin 9"
  using to_double_of_int [of 1] to_double_of_int [of 3] to_double_of_int [of 4]
    to_double_of_int [of 9]
  by simp_all

text \<open>
  \<open>2 ^ 53 + 1\<close> is no double: it lies midway between \<open>2 ^ 53\<close> and \<open>2 ^ 53 + 2\<close>, and
  the tie goes to \<open>2 ^ 53\<close>.
\<close>

lemma to_double_2_53_1: "to_double 9007199254740993 = Fin 9007199254740992"
  by code_simp

section \<open>Facts about the tier table and the select options\<close>

lemma find_tier_cases:
  "find_tier d =
     (if d = Some 5 then Some \<lparr>days = 5, credits = 1 / 2, label = ''5 Days / 0.5 Credit''\<rparr>
      else if d = Some 10 then Some \<lparr>days = 10, credits = 1, label = ''10 Days / 1 Credit''\<rparr>
      else if d = Some 20 then Some \<lparr>days = 20, credits = 2, label = ''20 Days / 2 Credits''\<rparr>
      else if d = Some 30 then Some \<lparr>days = 30, credits = 3, label = ''30 Days / 3 Credits''\<rparr>
      else if d = Some 60 then Some \<lparr>days = 60, credits = 6, label = ''60 Days / 6 Credits''\<rparr>
      else None)"
  by (auto simp: find_tier_def DAY_CREDIT_TIERS_def)

lemma tierCost_cases:
  "tierCost d =
     (if d = 5 then Some (1 / 2) else if d = 10 then Some 1 else if d = 20 then Some 2
      else if d = 30 then Some 3 else if d = 60 then Some 6 else None)"
  by (simp add: tierCost_def find_tier_cases)

lemma find_tier_mem:
  assumes "t \<in> set DAY_CREDIT_TIERS"
  shows "find_tier (Some (days t)) = Some t"
proof -
  have "\<forall>t \<in> set DAY_CREDIT_TIERS. find_tier (Some (days t)) = Some t"
    unfolding DAY_CREDIT_TIERS_def by (simp add: find_tier_cases)
  then show ?thesis using assms by blast
qed

lemma find_tier_Some: "find_tier d = Some t \<Longrightarrow> t \<in> set DAY_CREDIT_TIERS \<and> d = Some (days t)"
  unfolding find_tier_def by (auto simp: find_Some_iff)

lemma credits_pos: "t \<in> set DAY_CREDIT_TIERS \<Longrightarrow> 0 < credits t"
  unfolding DAY_CREDIT_TIERS_def by auto

lemma day_tier_options: "DAY_TIER_OPTIONS = [''5'', ''10'', ''20'', ''30'', ''60'']"
  by code_simp

lemma parseInt_day_tier_options:
  "map parseInt [''5'', ''10'', ''20'', ''30'', ''60''] = [Some 5, Some 10, Some 20, Some 30, Some 60]"
  by code_simp

lemma toString_days:
  "t \<in> set DAY_CREDIT_TIERS \<Longrightarrow> toString (days t) \<in> set DAY_TIER_OPTIONS"
  by (simp add: DAY_TIER_OPTIONS_def)

lemma parseInt_option:
  assumes "t \<in> set DAY_CREDIT_TIERS"
  shows "parseInt (toString (days t)) = Some (days t)"
proof -
  have "map (\<lambda>t. parseInt (toString (days t))) DAY_CREDIT_TIERS = map (\<lambda>t. Some (days t)) DAY_CREDIT_TIERS"
    using day_tier_options parseInt_day_tier_options
    by (simp add: DAY_TIER_OPTIONS_def DAY_CREDIT_TIERS_def)
  then show ?thesis using assms by (simp add: map_eq_conv del: list.map)
qed

lemma toString_nonempty: "t \<in> set DAY_CREDIT_TIERS \<Longrightarrow> toString (days t) \<noteq> []"
  using toString_days [of t] by (auto simp: day_tier_options)

lemma parseInt_30: "parseInt ''30'' = Some 30" by code_simp

lemma parseInt_7: "parseInt ''7'' = Some 7" by code_simp


section \<open>Facts about the mutation and the submission\<close>

lemma mutationFn_sent_prefix:
  "fst (mutationFn env v) = [] \<or> fst (mutationFn env v) = [GetSession] \<or>
   (\<exists>t uid. find_tier (parseInt (dayTier v)) = Some t \<and>
      fst (mutationFn env v) = [GetSession, PostGenerate (make_payload v t uid)])"
  by (auto simp: mutationFn_def mutation_try_def Let_def
      split: option.splits reply.splits generate_response.splits)

lemma mutationFn_invalid_tier:
  "find_tier (parseInt (dayTier v)) = None \<Longrightarrow>
     mutationFn env v = ([], Inl ''Invalid day tier selected'')"
  by (simp add: mutationFn_def mutation_try_def or_message_def)

lemma onError_fields:
  "sent (onError m p) = sent p" "generatedKeys (onError m p) = generatedKeys p"
  "invalidated (onError m p) = invalidated p" "form (onError m p) = form p"
  "the_profile (onError m p) = the_profile p"
  by (simp_all add: onError_def)

lemma onSuccess_fields:
  "sent (onSuccess d p) = sent p" "form (onSuccess d p) = form p"
  "the_profile (onSuccess d p) = the_profile p"
  by (simp_all add: onSuccess_def Let_def split: option.splits)

lemma mutate_invalid_tier:
  assumes "find_tier (parseInt (dayTier v)) = None"
  shows "mutate env v p =
     p\<lparr>toasts := toasts p @
        [\<lparr>title = ''Error'', description = ''Invalid day tier selected'', destructive = True\<rparr>]\<rparr>"
  using mutationFn_invalid_tier [OF assms, of env]
  by (simp add: mutate_def onError_def or_message_def)

lemma schema_keyCount:
  "keyCount v = Count n \<Longrightarrow> n < 1 \<Longrightarrow>
     (KeyCount, ''Must generate at least 1 key'') \<in> set (generateKeySchema v)"
  by (simp add: generateKeySchema_def)

lemma schema_ok_iff:
  "generateKeySchema v = [] \<longleftrightarrow>
     game v \<noteq> [] \<and> deviceLimit v \<noteq> [] \<and> dayTier v \<noteq> [] \<and> (\<exists>n. keyCount v = Count n \<and> 1 \<le> n)"
  by (cases "keyCount v") (auto simp: generateKeySchema_def)

lemma example_mutation:
  "mutationFn example_env (defaultValues\<lparr>game := ''FREE FIRE''\<rparr>) =
     ([GetSession,
       PostGenerate \<lparr>p_game = ''FREE FIRE'', p_deviceLimit = Some 1, p_days = 30,
                     p_keyString = None, p_count = Count 1, p_resellerId = 7\<rparr>],
      Inr \<lparr>keys = Some [\<lparr>keyString = ''FF-K1'', expiryAt = 30\<rparr>, \<lparr>keyString = ''FF-K2'', expiryAt = 30\<rparr>]\<rparr>)"
proof -
  have p1: "parseInt ''1'' = Some 1" by code_simp
  show ?thesis
    by (simp add: mutationFn_def mutation_try_def example_env_def defaultValues_def parseInt_30 p1
        find_tier_cases session_user_def make_payload_def)
qed

lemma example_mutation_custom:
  "mutationFn example_env (defaultValues\<lparr>game := ''FREE FIRE'', customKey := Some ''MYKEY''\<rparr>) =
     ([GetSession,
       PostGenerate \<lparr>p_game = ''FREE FIRE'', p_deviceLimit = Some 1, p_days = 30,
                     p_keyString = Some ''MYKEY'', p_count = Count 1, p_resellerId = 7\<rparr>],
      Inr \<lparr>keys = Some [\<lparr>keyString = ''FF-K1'', expiryAt = 30\<rparr>, \<lparr>keyString = ''FF-K2'', expiryAt = 30\<rparr>]\<rparr>)"
proof -
  have p1: "parseInt ''1'' = Some 1" by code_simp
  show ?thesis
    by (simp add: mutationFn_def mutation_try_def example_env_def defaultValues_def parseInt_30 p1
        find_tier_cases session_user_def make_payload_def)
qed

section \<open>Facts about the key generator\<close>

lemma fresh_key_props:
  "fresh_key used pre k rs = Some (s, rs') \<Longrightarrow>
     s \<notin> set used \<and> (\<exists>r \<in> set rs. s = pre @ r) \<and> set rs' \<subseteq> set rs"
proof (induction used pre k rs rule: fresh_key.induct)
  case (1 used pre rs)
  then show ?case by simp
next
  case (2 used pre k)
  then show ?case by simp
next
  case (3 used pre k r rs)
  show ?case
  proof (cases "pre @ r \<in> set used")
    case True
    with 3 show ?thesis by auto
  next
    case False
    with "3.prems" show ?thesis by auto
  qed
qed

lemma gen_keys_props:
  "gen_keys used pre k n rs = Some ss \<Longrightarrow>
     length ss = n \<and> distinct ss \<and> set ss \<inter> set used = {} \<and>
     (\<forall>s \<in> set ss. \<exists>r \<in> set rs. s = pre @ r)"
proof (induction n arbitrary: used rs ss)
  case 0
  then show ?case by simp
next
  case (Suc n)
  from Suc.prems obtain s rs' ss' where
    f: "fresh_key used pre k rs = Some (s, rs')" and
    g: "gen_keys (s # used) pre k n rs' = Some ss'" and
    e: "ss = s # ss'"
    by (auto split: option.splits)
  from fresh_key_props [OF f] have f1: "s \<notin> set used" and f2: "\<exists>r \<in> set rs. s = pre @ r"
    and f3: "set rs' \<subseteq> set rs" by auto
  from Suc.IH [OF g] have g1: "length ss' = n" and g2: "distinct ss'"
    and g3: "set ss' \<inter> set (s # used) = {}" and g4: "\<forall>s \<in> set ss'. \<exists>r \<in> set rs'. s = pre @ r"
    by auto
  have "\<forall>x \<in> set ss'. \<exists>r \<in> set rs. x = pre @ r" using g4 f3 by blast
  then show ?case using e f1 f2 g1 g2 g3 by auto
qed

lemma generate_Inr:
  assumes "snd (generate cfg rnd st rq) = Inr ks"
  shows "\<exists>c ss. tierCost (r_days rq) = Some c \<and> 1 \<le> r_count rq \<and> 1 \<le> r_deviceLimit rq
     \<and> c * of_int (r_count rq) \<le> ledger st (r_resellerId rq)
     \<and> key_strings cfg rnd (map k_keyString (store_keys st)) rq = Inr ss
     \<and> ks = map (make_key cfg rq c) ss"
  using assms
  by (auto simp: generate_def debit_def Let_def split: option.splits if_splits sum.splits)

lemma keyString_make_key: "map k_keyString (map (make_key cfg rq c) ss) = ss"
  by (induction ss) (simp_all add: make_key_def)

lemma generate_no_custom_key:
  assumes "r_customKey rq = None" and "snd (generate cfg rnd st rq) = Inr ks"
  shows "\<forall>k \<in> set ks. \<exists>r \<in> set rnd. k_keyString k = key_prefix cfg (r_game rq) @ r"
proof -
  let ?used = "map k_keyString (store_keys st)"
  from generate_Inr [OF assms(2)] obtain c ss where
    ks: "key_strings cfg rnd ?used rq = Inr ss" and e: "ks = map (make_key cfg rq c) ss"
    by blast
  from ks assms(1) have
    g: "gen_keys ?used (key_prefix cfg (r_game rq)) (max_attempts cfg) (nat (r_count rq)) rnd = Some ss"
    by (auto simp: key_strings_def split: option.splits)
  from gen_keys_props [OF g] have
    "\<forall>s \<in> set ss. \<exists>r \<in> set rnd. s = key_prefix cfg (r_game rq) @ r" by auto
  then show ?thesis by (auto simp: e make_key_def)
qed


text \<open>
  The example of the spec's testable properties: three keys at the 30-day tier cost 9
  credits, which a balance of 10 pays (1 credit is left) and a balance of 8 does not
  (the store is unchanged).
\<close>

lemma example_generate:
  "map_sum id (map k_keyString) (snd (generate example_cfg example_rnd (example_store 10) example_request))
     = Inr [''MYKEY'', ''FREE-BBBB'', ''FREE-CCCC'']"
  by (simp add: generate_def tierCost_cases debit_def key_strings_def example_cfg_def
      example_request_def example_store_def example_rnd_def make_key_def eval_nat_numeral Let_def)

lemma example_ledger:
  "ledger (fst (generate example_cfg example_rnd (example_store 10) example_request)) 7 = 1"
  by (simp add: generate_def tierCost_cases debit_def key_strings_def example_cfg_def
      example_request_def example_store_def example_rnd_def make_key_def eval_nat_numeral Let_def)

lemma example_generate_8:
  "generate example_cfg example_rnd (example_store 8) example_request = (example_store 8, Inl InsufficientCredit)"
  by (simp add: generate_def tierCost_cases debit_def example_request_def example_store_def)

lemma example_generate_no_custom:
  "map_sum id (map k_keyString)
     (snd (generate example_cfg example_rnd (example_store 10) (example_request\<lparr>r_customKey := None\<rparr>)))
     = Inr [''FREE-BBBB'', ''FREE-CCCC'', ''FREE-DDDD'']"
  by (simp add: generate_def tierCost_cases debit_def key_strings_def example_cfg_def
      example_request_def example_store_def example_rnd_def make_key_def eval_nat_numeral Let_def)

section \<open>The tier table (C1)\<close>

text \<open>
  C1. The tier table is exactly 5 days for 0.5 credits, 10 for 1, 20 for 2, 30 for 3 and
  60 for 6: \<open>tierCost\<close> returns the listed cost at each of the five numbers of days,
  and these five are the only numbers of days that have a tier.
\<close>

theorem tier_table_exact:
  "map (\<lambda>t. (days t, credits t)) DAY_CREDIT_TIERS = [(5, 1 / 2), (10, 1), (20, 2), (30, 3), (60, 6)]
   \<and> tierCost 5 = Some (1 / 2) \<and> tierCost 10 = Some 1 \<and> tierCost 20 = Some 2
   \<and> tierCost 30 = Some 3 \<and> tierCost 60 = Some 6
   \<and> dom tierCost = {5, 10, 20, 30, 60}"
proof -
  have "tierCost d \<noteq> None \<longleftrightarrow> d \<in> {5, 10, 20, 30, 60}" for d
    by (simp add: tierCost_cases del: not_None_eq)
  then have "dom tierCost = {5, 10, 20, 30, 60}"
    unfolding dom_def by blast
  moreover have "map (\<lambda>t. (days t, credits t)) DAY_CREDIT_TIERS = [(5, 1 / 2), (10, 1), (20, 2), (30, 3), (60, 6)]"
    by (simp add: DAY_CREDIT_TIERS_def)
  ultimately show ?thesis by (simp add: tierCost_cases)
qed

section \<open>Requests the page rejects (C4)\<close>

text \<open>
  C4. A submission whose selected days are not in the tier table, or whose number of
  keys is below 1, is rejected before any request is made: the page's list of requests
  is unchanged, no key is shown and no query is invalidated. A number of keys below 1 is
  an issue of the form validation at the field \<open>keyCount\<close>; when the form validates,
  the mutation throws the invalid-tier error without a request, and the page shows it.
\<close>

theorem invalid_request_rejected_before_any_request:
  assumes "find_tier (parseInt (dayTier (form pg))) = None \<or> (\<exists>n. keyCount (form pg) = Count n \<and> n < 1)"
  shows "sent (handleSubmit env pg) = sent pg
    \<and> sent (press_submit env isPending pg) = sent pg
    \<and> generatedKeys (handleSubmit env pg) = generatedKeys pg
    \<and> invalidated (handleSubmit env pg) = invalidated pg
    \<and> ((\<exists>n. keyCount (form pg) = Count n \<and> n < 1) \<longrightarrow>
          formErrors (handleSubmit env pg) = generateKeySchema (form pg)
          \<and> (KeyCount, ''Must generate at least 1 key'') \<in> set (formErrors (handleSubmit env pg))
          \<and> toasts (handleSubmit env pg) = toasts pg)
    \<and> (generateKeySchema (form pg) = [] \<longrightarrow>
          mutationFn env (form pg) = ([], Inl ''Invalid day tier selected'')
          \<and> toasts (handleSubmit env pg) = toasts pg @
               [\<lparr>title = ''Error'', description = ''Invalid day tier selected'', destructive = True\<rparr>])"
proof (cases "generateKeySchema (form pg) = []")
  case True
  then have "\<not> (\<exists>n. keyCount (form pg) = Count n \<and> n < 1)"
    by (auto simp: schema_ok_iff)
  with assms have nt: "find_tier (parseInt (dayTier (form pg))) = None" by blast
  have hs: "handleSubmit env pg = mutate env (form pg) (pg\<lparr>formErrors := []\<rparr>)"
    using True by (simp add: handleSubmit_def)
  have m: "mutate env (form pg) (pg\<lparr>formErrors := []\<rparr>) =
     (pg\<lparr>formErrors := []\<rparr>)\<lparr>toasts := toasts pg @
        [\<lparr>title = ''Error'', description = ''Invalid day tier selected'', destructive = True\<rparr>]\<rparr>"
    using mutate_invalid_tier [OF nt, of env "pg\<lparr>formErrors := []\<rparr>"] by simp
  show ?thesis
    using True nt \<open>\<not> (\<exists>n. keyCount (form pg) = Count n \<and> n < 1)\<close>
    by (simp add: hs m press_submit_def mutationFn_invalid_tier)
next
  case False
  then have hs: "handleSubmit env pg = pg\<lparr>formErrors := generateKeySchema (form pg)\<rparr>"
    by (simp add: handleSubmit_def Let_def)
  show ?thesis using False by (auto simp: hs press_submit_def schema_keyCount)
qed

text \<open>
  With no key requested the validation names the field; with a 7-day tier, which the
  table does not have, the mutation throws before any request.
\<close>

theorem invalid_request_witness:
  "sent (handleSubmit example_env (initial_page\<lparr>form := defaultValues\<lparr>game := ''FREE FIRE'', keyCount := Count 0\<rparr>\<rparr>)) = []
   \<and> (KeyCount, ''Must generate at least 1 key'') \<in>
       set (formErrors (handleSubmit example_env (initial_page\<lparr>form := defaultValues\<lparr>game := ''FREE FIRE'', keyCount := Count 0\<rparr>\<rparr>)))
   \<and> sent (handleSubmit example_env (initial_page\<lparr>form := defaultValues\<lparr>game := ''FREE FIRE'', dayTier := ''7''\<rparr>\<rparr>)) = []
   \<and> mutationFn example_env (defaultValues\<lparr>game := ''FREE FIRE'', dayTier := ''7''\<rparr>)
       = ([], Inl ''Invalid day tier selected'')"
proof -
  let ?p1 = "initial_page\<lparr>form := defaultValues\<lparr>game := ''FREE FIRE'', keyCount := Count 0\<rparr>\<rparr>"
  let ?p2 = "initial_page\<lparr>form := defaultValues\<lparr>game := ''FREE FIRE'', dayTier := ''7''\<rparr>\<rparr>"
  have h1: "find_tier (parseInt (dayTier (form ?p1))) = None \<or> (\<exists>n. keyCount (form ?p1) = Count n \<and> n < 1)"
    by simp
  have h2: "find_tier (parseInt (dayTier (form ?p2))) = None \<or> (\<exists>n. keyCount (form ?p2) = Count n \<and> n < 1)"
    by (simp add: parseInt_7 find_tier_cases)
  have ok2: "generateKeySchema (form ?p2) = []"
    by (simp add: generateKeySchema_def defaultValues_def)
  show ?thesis
    using invalid_request_rejected_before_any_request [OF h1, of example_env False]
      invalid_request_rejected_before_any_request [OF h2, of example_env False] ok2
    by (simp add: initial_page_def generateKeySchema_def defaultValues_def)
qed

section \<open>The custom key of a batch (C5)\<close>

text \<open>
  C5. When a batch of more than one key is generated with a custom string supplied, the
  batch has the requested number of keys, the first key carries the custom string, and
  every remaining key carries a generated string (the prefix and a pseudorandom output)
  that is not the custom string; the strings of the batch are pairwise distinct and none
  was in use before.
\<close>

theorem custom_key_only_first:
  assumes "r_customKey rq = Some ck" and "1 < r_count rq"
    and "snd (generate cfg rnd st rq) = Inr ks"
  shows "length ks = nat (r_count rq)
    \<and> (\<exists>k0 rest. ks = k0 # rest \<and> k_keyString k0 = ck
          \<and> (\<forall>k \<in> set rest. k_keyString k \<noteq> ck
                \<and> (\<exists>r \<in> set rnd. k_keyString k = key_prefix cfg (r_game rq) @ r)))
    \<and> distinct (map k_keyString ks)
    \<and> set (map k_keyString ks) \<inter> set (map k_keyString (store_keys st)) = {}"
proof -
  let ?used = "map k_keyString (store_keys st)"
  from generate_Inr [OF assms(3)] obtain c ss where
    ks: "key_strings cfg rnd ?used rq = Inr ss" and e: "ks = map (make_key cfg rq c) ss"
    by blast
  from ks assms(1) obtain ss' where
    fresh: "ck \<notin> set ?used" and
    g: "gen_keys (ck # ?used) (key_prefix cfg (r_game rq)) (max_attempts cfg) (nat (r_count rq - 1)) rnd = Some ss'"
    and e2: "ss = ck # ss'"
    by (auto simp: key_strings_def split: if_splits option.splits)
  from gen_keys_props [OF g] have
    l: "length ss' = nat (r_count rq - 1)" and d: "distinct ss'" and
    i: "set ss' \<inter> set (ck # ?used) = {}" and
    p: "\<forall>s \<in> set ss'. \<exists>r \<in> set rnd. s = key_prefix cfg (r_game rq) @ r"
    by auto
  have names: "map k_keyString ks = ck # ss'"
    unfolding e keyString_make_key by (rule e2)
  have len: "length ks = nat (r_count rq)"
    using l assms(2) by (simp add: e e2)
  have shape: "ks = make_key cfg rq c ck # map (make_key cfg rq c) ss'" by (simp add: e e2)
  have first: "k_keyString (make_key cfg rq c ck) = ck" by (simp add: make_key_def)
  have rest: "\<forall>k \<in> set (map (make_key cfg rq c) ss'). k_keyString k \<noteq> ck
       \<and> (\<exists>r \<in> set rnd. k_keyString k = key_prefix cfg (r_game rq) @ r)"
    using i p by (auto simp: make_key_def)
  have dist: "distinct (map k_keyString ks)" using d i by (simp add: names)
  have disj: "set (map k_keyString ks) \<inter> set ?used = {}"
    using fresh i unfolding names by auto
  show ?thesis using len shape first rest dist disj by blast
qed

text \<open>
  Three keys at the 30-day tier with the custom string \<^verbatim>\<open>MYKEY\<close>: the first output of the
  pseudorandom source collides with a key in use and is generated again.
\<close>

theorem custom_key_only_first_witness:
  "(\<exists>ks. snd (generate example_cfg example_rnd (example_store 10) example_request) = Inr ks
      \<and> map k_keyString ks = [''MYKEY'', ''FREE-BBBB'', ''FREE-CCCC'']
      \<and> length ks = 3 \<and> distinct (map k_keyString ks)
      \<and> ''FREE-AAAA'' \<notin> set (map k_keyString ks))"
proof -
  from example_generate obtain ks where
    ks: "snd (generate example_cfg example_rnd (example_store 10) example_request) = Inr ks"
    and names: "map k_keyString ks = [''MYKEY'', ''FREE-BBBB'', ''FREE-CCCC'']"
    by (cases "snd (generate example_cfg example_rnd (example_store 10) example_request)") auto
  have a: "r_customKey example_request = Some ''MYKEY''" by (simp add: example_request_def)
  have b: "1 < r_count example_request" by (simp add: example_request_def)
  from custom_key_only_first [OF a b ks]
  have "length ks = 3" and "distinct (map k_keyString ks)"
    and "set (map k_keyString ks) \<inter> set (map k_keyString (store_keys (example_store 10))) = {}"
    by (simp_all add: example_request_def)
  then show ?thesis using ks names by (auto simp: example_store_def)
qed

section \<open>The keys displayed after a generation (C7)\<close>

text \<open>
  C7. After a successful response whose list of keys is not empty, the page displays
  exactly the \<open>keyString\<close> of each returned key, in the order of the response, and the
  success message reports how many there are.
\<close>

theorem returned_keys_displayed:
  assumes "keys d = Some ks" and "ks \<noteq> []"
  shows "generatedKeys (onSuccess d p) = map keyString ks
    \<and> shown_keys (onSuccess d p) = Some (map keyString ks)
    \<and> toasts (onSuccess d p) = toasts p @
         [\<lparr>title = ''Success'',
           description = ''Generated '' @ nat_toString (length ks) @ '' key(s) successfully'',
           destructive = False\<rparr>]
    \<and> (mutationFn env v = (tr, Inr d) \<longrightarrow>
          shown_keys (mutate env v p) = Some (map keyString ks)
          \<and> toasts (mutate env v p) = toasts p @
               [\<lparr>title = ''Success'',
                 description = ''Generated '' @ nat_toString (length ks) @ '' key(s) successfully'',
                 destructive = False\<rparr>])"
  using assms by (simp add: onSuccess_def shown_keys_def mutate_def Let_def)

text \<open>The example server's two keys are displayed in order, and counted.\<close>

theorem returned_keys_witness:
  "shown_keys (mutate example_env (defaultValues\<lparr>game := ''FREE FIRE''\<rparr>) initial_page)
     = Some [''FF-K1'', ''FF-K2'']
   \<and> map description (toasts (mutate example_env (defaultValues\<lparr>game := ''FREE FIRE''\<rparr>) initial_page))
     = [''Generated 2 key(s) successfully'']"
proof -
  let ?ks = "[\<lparr>keyString = ''FF-K1'', expiryAt = 30\<rparr>, \<lparr>keyString = ''FF-K2'', expiryAt = 30\<rparr>]"
  let ?d = "\<lparr>keys = Some ?ks\<rparr>"
  have a: "keys ?d = Some ?ks" by simp
  have b: "?ks \<noteq> []" by simp
  have n2: "nat_toString (Suc (Suc 0)) = ''2''" by code_simp
  show ?thesis
    using returned_keys_displayed [OF a b, of initial_page example_env
        "defaultValues\<lparr>game := ''FREE FIRE''\<rparr>"
        "[GetSession, PostGenerate \<lparr>p_game = ''FREE FIRE'', p_deviceLimit = Some 1, p_days = 30,
                     p_keyString = None, p_count = Count 1, p_resellerId = 7\<rparr>]"]
      example_mutation
    by (simp add: initial_page_def n2)
qed

section \<open>The custom key in the payload (C9)\<close>

text \<open>
  C9. In the payload of every generation request the mutation sends, \<open>keyString\<close> is
  undefined when the custom-key field is empty (or undefined), and is the field's text,
  unchanged, when it is not empty. With no custom key the generator behind the request
  generates the string of every key of the batch.
\<close>

theorem custom_key_forwarded:
  assumes "PostGenerate pl \<in> set (fst (mutationFn env v))"
  shows "(customKey v = None \<or> customKey v = Some [] \<longrightarrow> p_keyString pl = None)
    \<and> (\<forall>s. customKey v = Some s \<and> s \<noteq> [] \<longrightarrow> p_keyString pl = Some s)
    \<and> (p_keyString pl = None \<and> r_customKey rq = p_keyString pl
          \<and> snd (generate cfg rnd st rq) = Inr ks
        \<longrightarrow> (\<forall>k \<in> set ks. \<exists>r \<in> set rnd. k_keyString k = key_prefix cfg (r_game rq) @ r))"
proof -
  from mutationFn_sent_prefix [of env v] assms obtain t uid where
    pl: "pl = make_payload v t uid" by auto
  have a: "customKey v = None \<or> customKey v = Some [] \<longrightarrow> p_keyString pl = None"
    by (auto simp: pl make_payload_def)
  have b: "\<forall>s. customKey v = Some s \<and> s \<noteq> [] \<longrightarrow> p_keyString pl = Some s"
    by (auto simp: pl make_payload_def)
  have c: "\<forall>k \<in> set ks. \<exists>r \<in> set rnd. k_keyString k = key_prefix cfg (r_game rq) @ r"
    if "p_keyString pl = None" "r_customKey rq = p_keyString pl"
       "snd (generate cfg rnd st rq) = Inr ks"
    using generate_no_custom_key [of rq cfg rnd st ks] that by simp
  show ?thesis using a b c by blast
qed

text \<open>
  The default form sends no custom key and the text \<^verbatim>\<open>MYKEY\<close> is sent as typed; without a
  custom key the three strings of a batch are all generated.
\<close>

theorem custom_key_forwarded_witness:
  "p_keyString \<lparr>p_game = ''FREE FIRE'', p_deviceLimit = Some 1, p_days = 30,
                p_keyString = None, p_count = Count 1, p_resellerId = 7\<rparr> = None
   \<and> PostGenerate \<lparr>p_game = ''FREE FIRE'', p_deviceLimit = Some 1, p_days = 30,
                p_keyString = None, p_count = Count 1, p_resellerId = 7\<rparr>
       \<in> set (fst (mutationFn example_env (defaultValues\<lparr>game := ''FREE FIRE''\<rparr>)))
   \<and> PostGenerate \<lparr>p_game = ''FREE FIRE'', p_deviceLimit = Some 1, p_days = 30,
                p_keyString = Some ''MYKEY'', p_count = Count 1, p_resellerId = 7\<rparr>
       \<in> set (fst (mutationFn example_env (defaultValues\<lparr>game := ''FREE FIRE'', customKey := Some ''MYKEY''\<rparr>)))
   \<and> (\<exists>ks. snd (generate example_cfg example_rnd (example_store 10) (example_request\<lparr>r_customKey := None\<rparr>)) = Inr ks
         \<and> map k_keyString ks = [''FREE-BBBB'', ''FREE-CCCC'', ''FREE-DDDD'']
         \<and> list_all (\<lambda>k. \<exists>r \<in> set example_rnd. k_keyString k = ''FREE-'' @ r) ks)"
proof -
  let ?pl = "\<lparr>p_game = ''FREE FIRE'', p_deviceLimit = Some 1, p_days = 30,
                p_keyString = None, p_count = Count 1, p_resellerId = 7\<rparr>"
  let ?pl2 = "\<lparr>p_game = ''FREE FIRE'', p_deviceLimit = Some 1, p_days = 30,
                p_keyString = Some ''MYKEY'', p_count = Count 1, p_resellerId = 7\<rparr>"
  let ?rq = "example_request\<lparr>r_customKey := None\<rparr>"
  have a: "PostGenerate ?pl \<in> set (fst (mutationFn example_env (defaultValues\<lparr>game := ''FREE FIRE''\<rparr>)))"
    by (simp add: example_mutation)
  have a2: "PostGenerate ?pl2 \<in> set (fst (mutationFn example_env (defaultValues\<lparr>game := ''FREE FIRE'', customKey := Some ''MYKEY''\<rparr>)))"
    by (simp add: example_mutation_custom)
  from example_generate_no_custom obtain ks where
    ks: "snd (generate example_cfg example_rnd (example_store 10) ?rq) = Inr ks"
    and names: "map k_keyString ks = [''FREE-BBBB'', ''FREE-CCCC'', ''FREE-DDDD'']"
    by (cases "snd (generate example_cfg example_rnd (example_store 10) ?rq)") auto
  have b: "p_keyString ?pl = None \<and> r_customKey ?rq = p_keyString ?pl" by simp
  from custom_key_forwarded [OF a, of ?rq example_cfg example_rnd "example_store 10" ks] b ks
  have "\<forall>k \<in> set ks. \<exists>r \<in> set example_rnd. k_keyString k = key_prefix example_cfg (r_game ?rq) @ r"
    by blast
  then have "list_all (\<lambda>k. \<exists>r \<in> set example_rnd. k_keyString k = ''FREE-'' @ r) ks"
    by (simp add: list_all_iff example_cfg_def example_request_def)
  then show ?thesis using a a2 ks names by auto
qed

section \<open>What every session of the page sends\<close>

lemma parseInt_device_limit_options:
  "map parseInt DEVICE_LIMIT_OPTIONS = [Some 1, Some 2, Some 100]"
  by code_simp

lemma parseInt_device_limit:
  assumes "d \<in> set DEVICE_LIMIT_OPTIONS"
  shows "parseInt d \<in> {Some 1, Some 2, Some 100}"
proof -
  have "parseInt d \<in> set (map parseInt DEVICE_LIMIT_OPTIONS)" using assms by simp
  then show ?thesis unfolding parseInt_device_limit_options by simp
qed

lemma generate_payloads_sent:
  "sent q = sent p \<Longrightarrow> generate_payloads q = generate_payloads p"
  by (simp add: generate_payloads_def)

lemma mutate_sent: "sent (mutate env v p) = sent p @ fst (mutationFn env v)"
  by (cases "mutationFn env v" rule: prod.exhaust; cases "snd (mutationFn env v)")
     (auto simp: mutate_def onError_fields onSuccess_fields)

lemma mutate_form: "form (mutate env v p) = form p"
  by (cases "mutationFn env v" rule: prod.exhaust; cases "snd (mutationFn env v)")
     (auto simp: mutate_def onError_fields onSuccess_fields)

lemma press_submit_form: "form (press_submit env b p) = form p"
  by (simp add: press_submit_def handleSubmit_def Let_def mutate_form)

text \<open>
  A payload sent by a press of the submit button is built from the form as it is then,
  and the form has a game.
\<close>

lemma press_submit_payloads:
  assumes "pl \<in> set (generate_payloads (press_submit env b p))"
  shows "pl \<in> set (generate_payloads p)
    \<or> (\<exists>t uid. game (form p) \<noteq> [] \<and> pl = make_payload (form p) t uid)"
proof (cases "press_submit env b p = p \<or> generateKeySchema (form p) \<noteq> []")
  case True
  then have "sent (press_submit env b p) = sent p"
    by (auto simp: press_submit_def handleSubmit_def Let_def split: if_splits)
  from generate_payloads_sent [OF this] assms show ?thesis by simp
next
  case False
  then have ok: "generateKeySchema (form p) = []" by simp
  then have g: "game (form p) \<noteq> []" by (simp add: schema_ok_iff)
  have "press_submit env b p = handleSubmit env p"
    using False by (auto simp: press_submit_def split: if_splits)
  then have s: "sent (press_submit env b p) = sent p @ fst (mutationFn env (form p))"
    using ok by (simp add: handleSubmit_def mutate_sent)
  from assms have "pl \<in> set (generate_payloads p)
      \<or> PostGenerate pl \<in> set (fst (mutationFn env (form p)))"
    unfolding generate_payloads_def s by (auto split: request.splits)
  then show ?thesis
  proof
    assume "pl \<in> set (generate_payloads p)"
    then show ?thesis by simp
  next
    assume "PostGenerate pl \<in> set (fst (mutationFn env (form p)))"
    with mutationFn_sent_prefix [of env "form p"] obtain t uid where
      "pl = make_payload (form p) t uid" by auto
    with g show ?thesis by blast
  qed
qed

lemma on_event_payloads:
  assumes "pl \<in> set (generate_payloads (on_event e p))"
  shows "pl \<in> set (generate_payloads p)
    \<or> (\<exists>t uid. game (form p) \<noteq> [] \<and> pl = make_payload (form p) t uid)"
proof (cases e)
  case (PressSubmit env b)
  with press_submit_payloads [of pl env b p] assms show ?thesis by simp
next
  case (ClickRandom r)
  with assms show ?thesis
    by (simp add: handleGenerateRandomKey_def generate_payloads_def set_form_def split: if_splits)
qed (use assms in \<open>simp_all add: generate_payloads_def set_form_def\<close>)

lemma run_snoc: "run (es @ [e]) = on_event e (run es)"
  by (simp add: run_def)

lemma on_event_game:
  assumes "game_from_select e" and "game (form p) \<in> set ([] # GAME_OPTIONS)"
  shows "game (form (on_event e p)) \<in> set ([] # GAME_OPTIONS)"
  using assms
  by (cases e)
     (auto simp: set_form_def keyCount_onChange_def handleGenerateRandomKey_def
        press_submit_form split: option.splits)

lemma on_event_device_limit:
  assumes "device_limit_from_select e" and "deviceLimit (form p) \<in> set DEVICE_LIMIT_OPTIONS"
  shows "deviceLimit (form (on_event e p)) \<in> set DEVICE_LIMIT_OPTIONS"
  using assms
  by (cases e)
     (auto simp: set_form_def keyCount_onChange_def handleGenerateRandomKey_def
        press_submit_form split: option.splits)

lemma run_game_invariant:
  assumes "list_all game_from_select es"
  shows "game (form (run es)) \<in> set ([] # GAME_OPTIONS)
    \<and> (\<forall>pl \<in> set (generate_payloads (run es)). p_game pl \<in> set GAME_OPTIONS)"
  using assms
proof (induction es rule: rev_induct)
  case Nil
  show ?case
    by (simp add: run_def initial_page_def generate_payloads_def defaultValues_def)
next
  case (snoc e es)
  then have e: "game_from_select e" and ih1: "game (form (run es)) \<in> set ([] # GAME_OPTIONS)"
    and ih2: "\<forall>pl \<in> set (generate_payloads (run es)). p_game pl \<in> set GAME_OPTIONS"
    by simp_all
  have "p_game pl \<in> set GAME_OPTIONS" if "pl \<in> set (generate_payloads (on_event e (run es)))" for pl
    using on_event_payloads [OF that] ih1 ih2 by (auto simp: make_payload_def)
  then show ?case unfolding run_snoc using on_event_game [OF e ih1] by blast
qed

lemma run_device_limit_invariant:
  assumes "list_all device_limit_from_select es"
  shows "deviceLimit (form (run es)) \<in> set DEVICE_LIMIT_OPTIONS
    \<and> (\<forall>pl \<in> set (generate_payloads (run es)). p_deviceLimit pl \<in> {Some 1, Some 2, Some 100})"
  using assms
proof (induction es rule: rev_induct)
  case Nil
  show ?case
    by (simp add: run_def initial_page_def generate_payloads_def defaultValues_def
        DEVICE_LIMIT_OPTIONS_def)
next
  case (snoc e es)
  then have e: "device_limit_from_select e"
    and ih1: "deviceLimit (form (run es)) \<in> set DEVICE_LIMIT_OPTIONS"
    and ih2: "\<forall>pl \<in> set (generate_payloads (run es)). p_deviceLimit pl \<in> {Some 1, Some 2, Some 100}"
    by simp_all
  have "p_deviceLimit pl \<in> {Some 1, Some 2, Some 100}"
    if "pl \<in> set (generate_payloads (on_event e (run es)))" for pl
    using on_event_payloads [OF that] ih2 parseInt_device_limit [OF ih1]
    by (auto simp: make_payload_def)
  then show ?case unfolding run_snoc using on_event_device_limit [OF e ih1] by blast
qed

lemma game_options_names: "set GAME_OPTIONS = range game_name"
proof -
  have "range game_name = {game_name PUBG_MOBILE, game_name LIOS, game_name FREE_FIRE}"
  proof
    show "range game_name \<subseteq> {game_name PUBG_MOBILE, game_name LIOS, game_name FREE_FIRE}"
    proof
      fix x assume "x \<in> range game_name"
      then obtain g where "x = game_name g" by blast
      then show "x \<in> {game_name PUBG_MOBILE, game_name LIOS, game_name FREE_FIRE}"
        by (cases g) simp_all
    qed
  qed blast
  then show ?thesis by (simp add: GAME_OPTIONS_def)
qed

lemma parseInt_100: "parseInt ''100'' = Some 100" by code_simp

lemma parseInt_2: "parseInt ''2'' = Some 2" by code_simp

lemma parseInt_0: "parseInt ''0'' = Some 0" by code_simp

lemmas run_example_simps =
  example_events_def run_def set_form_def GAME_OPTIONS_def DEVICE_LIMIT_OPTIONS_def
  initial_page_def defaultValues_def press_submit_def submit_disabled_def insufficient_def
  available_def or0_def totalCredits_def watched_tier_def watched_days_def count_number_def
  number_input_valid_def to_double_small
  handleSubmit_def generateKeySchema_def mutate_def mutationFn_def mutation_try_def
  example_env_def session_user_def make_payload_def onSuccess_def generate_payloads_def
  find_tier_cases parseInt_30 parseInt_100 parseInt_2 parseInt_0 Let_def

lemma example_run_free_fire:
  "generate_payloads (run (example_events ''FREE FIRE'' ''100'')) =
     [\<lparr>p_game = ''FREE FIRE'', p_deviceLimit = Some 100, p_days = 30, p_keyString = None,
       p_count = Count 1, p_resellerId = 7\<rparr>]"
  by (simp add: run_example_simps)

lemma example_run_pubg:
  "generate_payloads (run (example_events ''PUBG MOBILE'' ''2'')) =
     [\<lparr>p_game = ''PUBG MOBILE'', p_deviceLimit = Some 2, p_days = 30, p_keyString = None,
       p_count = Count 1, p_resellerId = 7\<rparr>]"
  by (simp add: run_example_simps)

text \<open>
  The handlers themselves store and send whatever string they are called with: the
  restriction to the items is the select component's.
\<close>

lemma example_run_other:
  "generate_payloads (run (example_events ''MINECRAFT'' ''0'')) =
     [\<lparr>p_game = ''MINECRAFT'', p_deviceLimit = Some 0, p_days = 30, p_keyString = None,
       p_count = Count 1, p_resellerId = 7\<rparr>]"
  by (simp add: run_example_simps)

section \<open>What the page can submit (C6, C8)\<close>

text \<open>
  C6. In every session of the page in which the game select calls its handler with the
  value of one of its items, every generation payload sent names one of the three games
  of the enumeration (PUBG Mobile, Last Island of Survival, Free Fire), and the game
  field itself is unselected or one of the three: no other game can be selected or
  submitted.
\<close>

theorem submitted_game_in_enumeration:
  assumes "\<forall>g. SelectGame g \<in> set es \<longrightarrow> g \<in> {''PUBG MOBILE'', ''LAST ISLAND OF SURVIVAL'', ''FREE FIRE''}"
    and "pl \<in> set (generate_payloads (run es))"
  shows "p_game pl \<in> {''PUBG MOBILE'', ''LAST ISLAND OF SURVIVAL'', ''FREE FIRE''}
    \<and> (\<exists>g. p_game pl = game_name g)
    \<and> (game (form (run es)) = [] \<or> (\<exists>g. game (form (run es)) = game_name g))"
proof -
  have "game_from_select e" if "e \<in> set es" for e
    using assms(1) that by (cases e) (auto simp: GAME_OPTIONS_def)
  then have "list_all game_from_select es" by (simp add: list_all_iff)
  from run_game_invariant [OF this] assms(2)
  have m: "p_game pl \<in> set GAME_OPTIONS" and f: "game (form (run es)) \<in> set ([] # GAME_OPTIONS)"
    by auto
  from m have "p_game pl \<in> range game_name" unfolding game_options_names .
  moreover from f have "game (form (run es)) = [] \<or> game (form (run es)) \<in> range game_name"
    unfolding game_options_names [symmetric] by auto
  ultimately show ?thesis using m by (auto simp: GAME_OPTIONS_def)
qed

text \<open>Free Fire is chosen in the select, and submitted as chosen.\<close>

theorem submitted_game_witness:
  "generate_payloads (run (example_events ''FREE FIRE'' ''100'')) =
     [\<lparr>p_game = ''FREE FIRE'', p_deviceLimit = Some 100, p_days = 30, p_keyString = None,
       p_count = Count 1, p_resellerId = 7\<rparr>]
   \<and> (\<exists>g. ''FREE FIRE'' = game_name g)"
proof -
  let ?pl = "\<lparr>p_game = ''FREE FIRE'', p_deviceLimit = Some 100, p_days = 30, p_keyString = None,
       p_count = Count 1, p_resellerId = 7\<rparr>"
  have a: "\<forall>g. SelectGame g \<in> set (example_events ''FREE FIRE'' ''100'')
      \<longrightarrow> g \<in> {''PUBG MOBILE'', ''LAST ISLAND OF SURVIVAL'', ''FREE FIRE''}"
    by (simp add: example_events_def)
  have b: "?pl \<in> set (generate_payloads (run (example_events ''FREE FIRE'' ''100'')))"
    by (simp add: example_run_free_fire)
  from submitted_game_in_enumeration [OF a b] have "\<exists>g. ''FREE FIRE'' = game_name g" by simp
  then show ?thesis using example_run_free_fire by simp
qed

text \<open>
  C8. In every session of the page in which the device limit select calls its handler
  with the value of one of its items, every generation payload sent has the device limit
  1, 2 or 100, so the limit is at least 1 and the rejection of a limit below 1 cannot be
  reached from the page.
\<close>

theorem submitted_device_limit_options:
  assumes "\<forall>d. SelectDeviceLimit d \<in> set es \<longrightarrow> d \<in> {''1'', ''2'', ''100''}"
    and "pl \<in> set (generate_payloads (run es))"
  shows "p_deviceLimit pl \<in> {Some 1, Some 2, Some 100}
    \<and> (\<exists>n. p_deviceLimit pl = Some n \<and> 1 \<le> n \<and> \<not> n < 1)
    \<and> deviceLimit (form (run es)) \<in> {''1'', ''2'', ''100''}"
proof -
  have "device_limit_from_select e" if "e \<in> set es" for e
    using assms(1) that by (cases e) (auto simp: DEVICE_LIMIT_OPTIONS_def)
  then have "list_all device_limit_from_select es" by (simp add: list_all_iff)
  from run_device_limit_invariant [OF this] assms(2)
  have "p_deviceLimit pl \<in> {Some 1, Some 2, Some 100}"
    and "deviceLimit (form (run es)) \<in> set DEVICE_LIMIT_OPTIONS" by auto
  then show ?thesis by (auto simp: DEVICE_LIMIT_OPTIONS_def)
qed

text \<open>Two devices are chosen in the select, and submitted as chosen.\<close>

theorem submitted_device_limit_witness:
  "generate_payloads (run (example_events ''PUBG MOBILE'' ''2'')) =
     [\<lparr>p_game = ''PUBG MOBILE'', p_deviceLimit = Some 2, p_days = 30, p_keyString = None,
       p_count = Count 1, p_resellerId = 7\<rparr>]
   \<and> Some (2::int) \<in> {Some 1, Some 2, Some 100}
   \<and> deviceLimit (form (run (example_events ''PUBG MOBILE'' ''2''))) = ''2''"
proof -
  let ?pl = "\<lparr>p_game = ''PUBG MOBILE'', p_deviceLimit = Some 2, p_days = 30, p_keyString = None,
       p_count = Count 1, p_resellerId = 7\<rparr>"
  have a: "\<forall>d. SelectDeviceLimit d \<in> set (example_events ''PUBG MOBILE'' ''2'')
      \<longrightarrow> d \<in> {''1'', ''2'', ''100''}"
    by (simp add: example_events_def)
  have b: "?pl \<in> set (generate_payloads (run (example_events ''PUBG MOBILE'' ''2'')))"
    by (simp add: example_run_pubg)
  have c: "deviceLimit (form (run (example_events ''PUBG MOBILE'' ''2''))) = ''2''"
    by (simp add: run_example_simps)
  from submitted_device_limit_options [OF a b] have "Some (2::int) \<in> {Some 1, Some 2, Some 100}"
    by simp
  then show ?thesis using example_run_pubg c by simp
qed

section \<open>Facts about the total cost\<close>

lemma credits_cases: "t \<in> set DAY_CREDIT_TIERS \<Longrightarrow> credits t \<in> {1 / 2, 1, 2, 3, 6}"
  unfolding DAY_CREDIT_TIERS_def by auto

lemma available_cases:
  "available p = (case p of None \<Rightarrow> 0 | Some pr \<Rightarrow> profile_credits pr)"
  by (simp add: available_def or0_def split: option.splits)

text \<open>
  The product of a tier's cost and an integer is a double when neither the integer nor
  the product exceeds \<open>2 ^ 53\<close>.
\<close>

lemma tier_product_exact:
  assumes "t \<in> set DAY_CREDIT_TIERS" and "\<bar>n\<bar> \<le> 2 ^ 53"
    and "\<bar>credits t * of_int n\<bar> \<le> 2 ^ 53"
  shows "to_double (credits t * of_int n) = Fin (credits t * of_int n)"
proof (cases "credits t = 1 / 2")
  case True
  have n: "\<bar>of_int n :: rat\<bar> \<le> 2 ^ 53"
    using assms(2) by (metis of_int_abs of_int_le_iff of_int_numeral of_int_power)
  have a: "credits t * of_int n = of_int n / 2" using True by simp
  have "\<bar>credits t * of_int n\<bar> \<le> 2 ^ 52" unfolding a using n by simp
  then have b: "\<bar>credits t * of_int n\<bar> \<le> 2 ^ 52
      \<or> (even n \<and> \<bar>credits t * of_int n\<bar> \<le> 2 ^ 53)" by simp
  from to_double_exact [OF a b] show ?thesis .
next
  case False
  with credits_cases [OF assms(1)] obtain i :: int where i: "credits t = of_int i"
    by (metis insertE of_int_1 of_int_numeral singletonD)
  have e: "credits t * of_int n = of_int (i * n)" by (simp add: i)
  have "\<bar>of_int (i * n) :: rat\<bar> \<le> of_int (2 ^ 53)" using assms(3) unfolding e by simp
  then have "\<bar>i * n\<bar> \<le> 2 ^ 53" by (metis of_int_abs of_int_le_iff)
  from to_double_of_int [OF this] show ?thesis unfolding e .
qed

lemma total_exact:
  assumes "watched_tier v = Some t" and "keyCount v = Count n" and "\<bar>n\<bar> \<le> 2 ^ 53"
    and "\<bar>credits t * of_int n\<bar> \<le> 2 ^ 53"
  shows "totalCredits v = Fin (credits t * of_int n)"
proof -
  have mem: "t \<in> set DAY_CREDIT_TIERS"
    using find_tier_Some assms(1) unfolding watched_tier_def by blast
  have nz: "credits t \<noteq> 0" using credits_pos [OF mem] by simp
  have cn: "count_number (keyCount v) = Fin (of_int n)"
    by (simp add: count_number_def assms(2) to_double_of_int [OF assms(3)])
  show ?thesis
    using nz by (simp add: totalCredits_def assms(1) cn or0_def tier_product_exact [OF mem assms(3,4)])
qed

lemma total_without_tier:
  assumes "watched_tier v = None"
    and "keyCount v = Blank \<or> (\<exists>n y. keyCount v = Count n \<and> to_double (of_int n) = Fin y)"
  shows "totalCredits v = Fin 0"
  using assms by (auto simp: totalCredits_def or0_def count_number_def to_double_0)

lemma example_big_count:
  "count_number (Count 3002399751580331) = Fin 3002399751580331"
  using to_double_of_int [of 3002399751580331] by (simp add: count_number_def)

lemma example_big_total:
  "totalCredits (defaultValues\<lparr>game := ''FREE FIRE'', keyCount := Count 3002399751580331\<rparr>)
     = Fin 9007199254740992"
  by (simp add: totalCredits_def watched_tier_def watched_days_def defaultValues_def parseInt_30
      find_tier_cases or0_def example_big_count to_double_2_53_1)

text \<open>
  With no key, or with 101 keys, in the number input the browser submits nothing,
  whatever the credits.
\<close>

lemma example_press_out_of_range:
  "press_submit env False (initial_page\<lparr>form := defaultValues\<lparr>game := ''FREE FIRE'', keyCount := Count 0\<rparr>\<rparr>)
     = initial_page\<lparr>form := defaultValues\<lparr>game := ''FREE FIRE'', keyCount := Count 0\<rparr>\<rparr>"
  "press_submit env False
     (initial_page\<lparr>form := defaultValues\<lparr>game := ''FREE FIRE'', keyCount := Count 101\<rparr>,
                   the_profile := Some \<lparr>profile_credits = 1000\<rparr>\<rparr>)
     = initial_page\<lparr>form := defaultValues\<lparr>game := ''FREE FIRE'', keyCount := Count 101\<rparr>,
                    the_profile := Some \<lparr>profile_credits = 1000\<rparr>\<rparr>"
proof -
  have "to_double 101 = Fin 101" using to_double_of_int [of 101] by simp
  then show
    "press_submit env False (initial_page\<lparr>form := defaultValues\<lparr>game := ''FREE FIRE'', keyCount := Count 0\<rparr>\<rparr>)
       = initial_page\<lparr>form := defaultValues\<lparr>game := ''FREE FIRE'', keyCount := Count 0\<rparr>\<rparr>"
    "press_submit env False
       (initial_page\<lparr>form := defaultValues\<lparr>game := ''FREE FIRE'', keyCount := Count 101\<rparr>,
                     the_profile := Some \<lparr>profile_credits = 1000\<rparr>\<rparr>)
       = initial_page\<lparr>form := defaultValues\<lparr>game := ''FREE FIRE'', keyCount := Count 101\<rparr>,
                      the_profile := Some \<lparr>profile_credits = 1000\<rparr>\<rparr>"
    by (simp_all add: press_submit_def number_input_valid_def to_double_0)
qed

section \<open>The total cost (C2)\<close>

text \<open>
  C2 does not hold for every number of keys: it fails where the product of the two doubles is rounded: at the 30-day
  tier, 3002399751580331 keys cost 9007199254740993 credits, and the page computes and
  displays 9007199254740992.
\<close>

theorem total_cost_rounded_counterexample:
  "tierCost 30 = Some 3
   \<and> dayTier (defaultValues\<lparr>game := ''FREE FIRE'', keyCount := Count 3002399751580331\<rparr>) = toString 30
   \<and> totalCredits (defaultValues\<lparr>game := ''FREE FIRE'', keyCount := Count 3002399751580331\<rparr>)
       = Fin 9007199254740992
   \<and> total (alertDescription None
        (defaultValues\<lparr>game := ''FREE FIRE'', keyCount := Count 3002399751580331\<rparr>))
       \<noteq> Fin (3 * of_int 3002399751580331)"
proof -
  have "toString 30 = ''30''" by code_simp
  then show ?thesis
    by (simp add: tierCost_cases example_big_total alertDescription_def) (simp add: defaultValues_def)
qed

text \<open>
  C2, amended. When a tier of the table is selected (the field holds the value of its
  select item) and the field of the number of keys holds a number \<open>n\<close> such that neither
  \<open>n\<close> nor the tier's cost times \<open>n\<close> exceeds \<open>2 ^ 53\<close> in magnitude (every number from 1
  to 100, which the input allows, is one), the total the page computes, and the total,
  the cost per key and the number of keys it displays, are the tier's cost times \<open>n\<close>,
  the tier's cost, and \<open>n\<close>.
\<close>

theorem total_cost_is_tier_cost_times_count:
  assumes "t \<in> set DAY_CREDIT_TIERS" and "dayTier v = toString (days t)" and "keyCount v = Count n"
    and "\<bar>n\<bar> \<le> 2 ^ 53" and "\<bar>credits t * of_int n\<bar> \<le> 2 ^ 53"
  shows "tierCost (days t) = Some (credits t)
    \<and> totalCredits v = Fin (credits t * of_int n)
    \<and> costPerKey (alertDescription p v) = credits t
    \<and> key_number (alertDescription p v) = Count n
    \<and> total (alertDescription p v) = Fin (credits t * of_int n)"
proof -
  have wt: "watched_tier v = Some t"
    using assms(1,2)
    by (simp add: watched_tier_def watched_days_def toString_nonempty parseInt_option find_tier_mem)
  have nz: "credits t \<noteq> 0" using credits_pos [OF assms(1)] by simp
  have tc: "totalCredits v = Fin (credits t * of_int n)"
    using total_exact [OF wt assms(3,4,5)] .
  show ?thesis using wt nz tc assms(1,3)
    by (simp add: tierCost_def find_tier_mem alertDescription_def or0_def)
qed

text \<open>Three keys at the 30-day tier cost 9 credits.\<close>

theorem total_cost_witness:
  "totalCredits (defaultValues\<lparr>keyCount := Count 3\<rparr>) = Fin 9 \<and> tierCost 30 = Some 3"
proof -
  let ?t = "\<lparr>days = 30, credits = 3, label = ''30 Days / 3 Credits''\<rparr>"
  let ?v = "defaultValues\<lparr>keyCount := Count 3\<rparr>"
  have a: "?t \<in> set DAY_CREDIT_TIERS" by (simp add: DAY_CREDIT_TIERS_def)
  have b: "dayTier ?v = toString (days ?t)" by code_simp
  have c: "keyCount ?v = Count 3" by simp
  have d: "\<bar>3::int\<bar> \<le> 2 ^ 53" by simp
  have e: "\<bar>credits ?t * of_int 3\<bar> \<le> 2 ^ 53" by simp
  show ?thesis using total_cost_is_tier_cost_times_count [OF a b c d e] by simp
qed

section \<open>The insufficient-credit check (C3)\<close>




section \<open>A selection without a tier (C10)\<close>

text \<open>
  C10 does not hold for every profile: it fails for a profile whose credits are negative: the total is 0, the
  credits are less, and the button is disabled.
\<close>

theorem unknown_tier_negative_credits_counterexample:
  "dayTier (defaultValues\<lparr>game := ''FREE FIRE'', dayTier := ''7''\<rparr>) \<noteq> []
   \<and> find_tier (parseInt (dayTier (defaultValues\<lparr>game := ''FREE FIRE'', dayTier := ''7''\<rparr>))) = None
   \<and> totalCredits (defaultValues\<lparr>game := ''FREE FIRE'', dayTier := ''7''\<rparr>) = Fin 0
   \<and> insufficient (Some \<lparr>profile_credits = - 1\<rparr>)
        (defaultValues\<lparr>game := ''FREE FIRE'', dayTier := ''7''\<rparr>)
   \<and> submit_disabled False (Some \<lparr>profile_credits = - 1\<rparr>)
        (defaultValues\<lparr>game := ''FREE FIRE'', dayTier := ''7''\<rparr>)"
proof -
  let ?v = "defaultValues\<lparr>game := ''FREE FIRE'', dayTier := ''7''\<rparr>"
  have t: "totalCredits ?v = Fin 0"
    by (simp add: totalCredits_def watched_tier_def watched_days_def defaultValues_def parseInt_7
        find_tier_cases or0_def count_number_def to_double_small to_double_0)
  show ?thesis
    by (simp add: t submit_disabled_def insufficient_def available_cases parseInt_7 find_tier_cases)
qed

text \<open>
  C10, amended. For a non-empty \<open>dayTier\<close> whose number of days has no tier, and a number
  of keys that is empty or finite, the total is 0, so the insufficient-credit check
  disables the button exactly when the credits of the profile are negative (never for
  the non-negative balances of the data model). No press of the submit button sends a
  request; when the button is enabled, the number of keys is within the input's range
  and the form validates, the mutation's tier lookup rejects the submission and the
  page shows its error. An empty \<open>dayTier\<close> is displayed as the 30-day tier.
\<close>

theorem unknown_tier_costs_nothing:
  assumes "dayTier v \<noteq> []" and "find_tier (parseInt (dayTier v)) = None"
    and "keyCount v = Blank \<or> (\<exists>n y. keyCount v = Count n \<and> to_double (of_int n) = Fin y)"
  shows "totalCredits v = Fin 0
    \<and> (insufficient p v \<longleftrightarrow> (case p of None \<Rightarrow> 0 | Some pr \<Rightarrow> profile_credits pr) < 0)
    \<and> (submit_disabled False p v \<longleftrightarrow> (case p of None \<Rightarrow> 0 | Some pr \<Rightarrow> profile_credits pr) < 0)
    \<and> mutationFn env v = ([], Inl ''Invalid day tier selected'')
    \<and> sent (press_submit env isPending (pg\<lparr>form := v, the_profile := p\<rparr>)) = sent pg
    \<and> (\<not> submit_disabled False p v \<and> number_input_valid (keyCount v) \<and> generateKeySchema v = []
        \<longrightarrow> toasts (press_submit env False (pg\<lparr>form := v, the_profile := p\<rparr>)) = toasts pg @
               [\<lparr>title = ''Error'', description = ''Invalid day tier selected'', destructive = True\<rparr>])
    \<and> watched_tier (v\<lparr>dayTier := []\<rparr>) = Some \<lparr>days = 30, credits = 3, label = ''30 Days / 3 Credits''\<rparr>
    \<and> totalCredits (v\<lparr>dayTier := []\<rparr>) = js_times 3 (count_number (keyCount v))"
proof -
  let ?pg = "pg\<lparr>form := v, the_profile := p\<rparr>"
  have wt: "watched_tier v = None"
    using assms(1,2) by (simp add: watched_tier_def watched_days_def)
  have tc: "totalCredits v = Fin 0" using total_without_tier [OF wt assms(3)] .
  have ins: "insufficient p v \<longleftrightarrow> (case p of None \<Rightarrow> 0 | Some pr \<Rightarrow> profile_credits pr) < 0"
    by (simp add: insufficient_def tc available_cases)
  have wt30: "watched_tier (v\<lparr>dayTier := []\<rparr>) = Some \<lparr>days = 30, credits = 3, label = ''30 Days / 3 Credits''\<rparr>"
    by (simp add: watched_tier_def watched_days_def parseInt_30 find_tier_cases)
  have tc30: "totalCredits (v\<lparr>dayTier := []\<rparr>) = js_times 3 (count_number (keyCount v))"
    by (simp add: totalCredits_def wt30 or0_def)
  have mut: "mutate env v q = q\<lparr>toasts := toasts q @
        [\<lparr>title = ''Error'', description = ''Invalid day tier selected'', destructive = True\<rparr>]\<rparr>" for q
    using mutate_invalid_tier [OF assms(2), of env q] .
  have hs: "sent (handleSubmit env ?pg) = sent pg"
    by (simp add: handleSubmit_def Let_def mut)
  have nosend: "sent (press_submit env isPending ?pg) = sent pg"
    using hs by (simp add: press_submit_def)
  have toast: "toasts (press_submit env False ?pg) = toasts pg @
        [\<lparr>title = ''Error'', description = ''Invalid day tier selected'', destructive = True\<rparr>]"
    if "\<not> submit_disabled False p v" "number_input_valid (keyCount v)" "generateKeySchema v = []"
    using that by (simp add: press_submit_def handleSubmit_def mut)
  show ?thesis
    using tc ins wt30 tc30 nosend toast mutationFn_invalid_tier [OF assms(2), of env]
    by (simp add: submit_disabled_def)
qed

text \<open>
  Four keys at a 7-day tier, which the table does not have, with 2 credits: the total is
  0, the button is enabled, and the press is answered by the mutation's error without a
  request; with an empty \<open>dayTier\<close> the four keys are priced at the 30-day tier.
\<close>

theorem unknown_tier_witness:
  "totalCredits (defaultValues\<lparr>game := ''FREE FIRE'', dayTier := ''7'', keyCount := Count 4\<rparr>) = Fin 0
   \<and> \<not> submit_disabled False (Some \<lparr>profile_credits = 2\<rparr>)
         (defaultValues\<lparr>game := ''FREE FIRE'', dayTier := ''7'', keyCount := Count 4\<rparr>)
   \<and> sent (press_submit example_env False
        (initial_page\<lparr>form := defaultValues\<lparr>game := ''FREE FIRE'', dayTier := ''7'', keyCount := Count 4\<rparr>,
                      the_profile := Some \<lparr>profile_credits = 2\<rparr>\<rparr>)) = []
   \<and> map description (toasts (press_submit example_env False
        (initial_page\<lparr>form := defaultValues\<lparr>game := ''FREE FIRE'', dayTier := ''7'', keyCount := Count 4\<rparr>,
                      the_profile := Some \<lparr>profile_credits = 2\<rparr>\<rparr>))) = [''Invalid day tier selected'']
   \<and> totalCredits (defaultValues\<lparr>game := ''FREE FIRE'', dayTier := '''', keyCount := Count 4\<rparr>) = Fin 12"
proof -
  let ?v = "defaultValues\<lparr>game := ''FREE FIRE'', dayTier := ''7'', keyCount := Count 4\<rparr>"
  let ?p = "Some \<lparr>profile_credits = 2\<rparr>"
  have a: "dayTier ?v \<noteq> []" by simp
  have b: "find_tier (parseInt (dayTier ?v)) = None" by (simp add: parseInt_7 find_tier_cases)
  have c: "keyCount ?v = Blank \<or> (\<exists>n y. keyCount ?v = Count n \<and> to_double (of_int n) = Fin y)"
    by (simp add: to_double_small)
  have ok: "generateKeySchema ?v = []" by (simp add: generateKeySchema_def defaultValues_def)
  have valid: "number_input_valid (keyCount ?v)"
    by (simp add: number_input_valid_def to_double_small)
  have t12: "to_double 12 = Fin 12" using to_double_of_int [of 12] by simp
  show ?thesis
    using unknown_tier_costs_nothing [OF a b c, of ?p example_env False initial_page] ok valid
    by (simp add: initial_page_def count_number_def defaultValues_def to_double_small t12)
qed

end
